theory Spec2Isabelle
  imports Complex_Main "HOL-Library.Log_Nat" "HOL-Library.Sublist"
begin

section \<open>The product catalogue service of \<open>src/app.js\<close>\<close>

text \<open>
  The service keeps one array \<open>products\<close> in memory and serves eight routes over it.
  Each route handler is embedded as a function from the request data and the array to
  the response and the array afterwards. The JavaScript values that reach the handlers
  (fields of a JSON body, query parameters, the path parameter) are embedded together
  with the coercions the handlers apply to them: \<open>!v\<close>, \<open>isNaN(v)\<close>, \<open>Number(v)\<close>,
  \<open>v < 0\<close>, \<open>parseInt(v)\<close>, \<open>toFixed(2)\<close>.
\<close>

subsection \<open>Numbers\<close>

text \<open>
  A JavaScript number is an IEEE 754 binary64 value. A finite value is kept as the
  rational it denotes; every arithmetic result is rounded to the nearest binary64 value
  (ties to even) by \<open>fround\<close>. The two zeros are one value \<open>Fin 0\<close>: no operation used by
  the service tells them apart (\<open>-0 < 0\<close> is false, \<open>-0 === 0\<close> is true, \<open>(-0).toFixed(2)\<close>
  is \<open>0.00\<close>, and the service never divides by a zero).
\<close>

datatype jsnum = NaN | PosInf | NegInf | Fin rat

definition pow2 :: "int \<Rightarrow> rat" where
  "pow2 e = (if 0 \<le> e then 2 ^ nat e else 1 / 2 ^ nat (- e))"

definition pow10 :: "int \<Rightarrow> rat" where
  "pow10 e = (if 0 \<le> e then 10 ^ nat e else 1 / 10 ^ nat (- e))"

text \<open>\<open>ilog2 a\<close> is the integer \<open>e\<close> with \<open>2^e \<le> a < 2^(e+1)\<close>, for a positive \<open>a\<close>.\<close>

definition ilog2 :: "rat \<Rightarrow> int" where
  "ilog2 a = (case quotient_of a of (p, q) \<Rightarrow>
     (let d = bitlen p - bitlen q in if pow2 d \<le> a then d else d - 1))"

definition round_even :: "rat \<Rightarrow> int" where
  "round_even q = (let f = \<lfloor>q\<rfloor>; r = q - of_int f in
     if r < 1 / 2 then f else if 1 / 2 < r then f + 1 else if even f then f else f + 1)"

text \<open>
  Rounding to binary64: 53 significant bits, exponents down to \<open>-1022\<close> (below that the
  spacing stays \<open>2^-1074\<close>), overflow to an infinity from \<open>2^1024\<close> on.
\<close>

definition fround :: "rat \<Rightarrow> jsnum" where
  "fround x = (if x = 0 then Fin 0 else
     (let a = \<bar>x\<bar>;
          e = max (ilog2 a) (- 1022);
          ulp = pow2 (e - 52);
          r = of_int (round_even (a / ulp)) * ulp
      in if pow2 1024 \<le> r then (if x < 0 then NegInf else PosInf)
         else Fin (if x < 0 then - r else r)))"

text \<open>\<open>a + b\<close> on numbers.\<close>

fun js_add :: "jsnum \<Rightarrow> jsnum \<Rightarrow> jsnum" where
  "js_add NaN _ = NaN"
| "js_add _ NaN = NaN"
| "js_add PosInf NegInf = NaN"
| "js_add NegInf PosInf = NaN"
| "js_add PosInf _ = PosInf"
| "js_add _ PosInf = PosInf"
| "js_add NegInf _ = NegInf"
| "js_add _ NegInf = NegInf"
| "js_add (Fin a) (Fin b) = fround (a + b)"

text \<open>\<open>a * b\<close> on numbers.\<close>

fun js_sign :: "jsnum \<Rightarrow> int" where
  "js_sign NaN = 0"
| "js_sign PosInf = 1"
| "js_sign NegInf = - 1"
| "js_sign (Fin a) = (if a = 0 then 0 else if a < 0 then - 1 else 1)"

fun js_mul :: "jsnum \<Rightarrow> jsnum \<Rightarrow> jsnum" where
  "js_mul NaN _ = NaN"
| "js_mul _ NaN = NaN"
| "js_mul (Fin a) (Fin b) = fround (a * b)"
| "js_mul a b = (let s = js_sign a * js_sign b in
     if s = 0 then NaN else if s < 0 then NegInf else PosInf)"

text \<open>
  \<open>a / n\<close> for a positive integer divisor \<open>n\<close>, the only division the service performs
  (\<open>totalValue / totalProducts\<close> under the guard \<open>totalProducts > 0\<close>).
\<close>

fun js_div_count :: "jsnum \<Rightarrow> nat \<Rightarrow> jsnum" where
  "js_div_count (Fin a) n = fround (a / of_nat n)"
| "js_div_count a n = a"

text \<open>\<open>Math.floor\<close>.\<close>

fun Math_floor :: "jsnum \<Rightarrow> jsnum" where
  "Math_floor (Fin a) = Fin (of_int \<lfloor>a\<rfloor>)"
| "Math_floor a = a"

text \<open>
  The comparisons \<open><\<close>, \<open>>\<close>, \<open><=\<close>, \<open>>=\<close> and \<open>===\<close> on numbers. Each is false as soon
  as one side is \<open>NaN\<close>.
\<close>

fun js_lt :: "jsnum \<Rightarrow> jsnum \<Rightarrow> bool" where
  "js_lt NaN _ = False"
| "js_lt _ NaN = False"
| "js_lt PosInf _ = False"
| "js_lt _ NegInf = False"
| "js_lt NegInf _ = True"
| "js_lt _ PosInf = True"
| "js_lt (Fin a) (Fin b) = (a < b)"

definition js_gt :: "jsnum \<Rightarrow> jsnum \<Rightarrow> bool" where
  "js_gt a b = js_lt b a"

definition js_strict_eq :: "jsnum \<Rightarrow> jsnum \<Rightarrow> bool" where
  "js_strict_eq a b = (a \<noteq> NaN \<and> b \<noteq> NaN \<and> a = b)"

definition js_le :: "jsnum \<Rightarrow> jsnum \<Rightarrow> bool" where
  "js_le a b = (js_lt a b \<or> js_strict_eq a b)"

definition js_ge :: "jsnum \<Rightarrow> jsnum \<Rightarrow> bool" where
  "js_ge a b = js_le b a"

subsection \<open>Strings\<close>

text \<open>
  A JavaScript string is a sequence of UTF-16 code units; each unit is kept as its
  number. \<open>str\<close> embeds an ASCII literal.
\<close>

type_synonym jsstring = "nat list"

definition str :: "string \<Rightarrow> jsstring" where
  "str s = map of_char s"

text \<open>White space and line terminators, as \<open>Number\<close> and \<open>parseInt\<close> strip them.\<close>

definition is_ws :: "nat \<Rightarrow> bool" where
  "is_ws c = (c \<in> {9, 10, 11, 12, 13, 32, 160, 5760, 8232, 8233, 8239, 8287, 12288, 65279}
     \<or> (8192 \<le> c \<and> c \<le> 8202))"

definition trim :: "jsstring \<Rightarrow> jsstring" where
  "trim s = rev (dropWhile is_ws (rev (dropWhile is_ws s)))"

text \<open>The value of a code unit as a digit: \<open>0\<close>-\<open>9\<close>, then letters of either case from 10.\<close>

definition digit_of :: "nat \<Rightarrow> nat option" where
  "digit_of c = (if 48 \<le> c \<and> c \<le> 57 then Some (c - 48)
     else if 97 \<le> c \<and> c \<le> 122 then Some (c - 87)
     else if 65 \<le> c \<and> c \<le> 90 then Some (c - 55)
     else None)"

definition is_radix_digit :: "nat \<Rightarrow> nat \<Rightarrow> bool" where
  "is_radix_digit R c = (case digit_of c of None \<Rightarrow> False | Some d \<Rightarrow> d < R)"

definition radix_value :: "nat \<Rightarrow> jsstring \<Rightarrow> nat" where
  "radix_value R Z = foldl (\<lambda>a c. a * R + (case digit_of c of None \<Rightarrow> 0 | Some d \<Rightarrow> d)) 0 Z"

text \<open>
  \<open>parseInt(string)\<close> with no radix: leading white space and one sign are skipped, a
  \<open>0x\<close> prefix selects radix 16, and the longest run of digits is read; what follows the
  run is ignored, and an empty run gives \<open>NaN\<close>.
\<close>

definition parseInt :: "jsstring \<Rightarrow> jsnum" where
  "parseInt inputString =
    (let S = dropWhile is_ws inputString;
         sign = (if S \<noteq> [] \<and> hd S = 45 then - 1 else (1::int));
         S1 = (if S \<noteq> [] \<and> (hd S = 43 \<or> hd S = 45) then tl S else S);
         hex = (case S1 of a # b # _ \<Rightarrow> a = 48 \<and> (b = 120 \<or> b = 88) | _ \<Rightarrow> False);
         R = (if hex then 16 else 10);
         S2 = (if hex then drop 2 S1 else S1);
         Z = takeWhile (is_radix_digit R) S2
     in if Z = [] then NaN else fround (of_int (sign * int (radix_value R Z))))"

text \<open>
  The conversion of a string to a number (\<open>Number(s)\<close>, and the implicit conversion in
  \<open>isNaN(s)\<close> and \<open>s < 0\<close>): the trimmed string is empty (value 0), a binary, octal or
  hexadecimal integer literal, or an optionally signed \<open>Infinity\<close> or decimal literal;
  anything else is \<open>NaN\<close>.
\<close>

definition non_decimal :: "jsstring \<Rightarrow> nat option" where
  "non_decimal t = (case t of
       a # b # ds \<Rightarrow>
         (let R = (if b = 120 \<or> b = 88 then 16 else if b = 111 \<or> b = 79 then 8
                   else if b = 98 \<or> b = 66 then 2 else (0::nat))
          in if a = 48 \<and> R \<noteq> 0 \<and> ds \<noteq> [] \<and> list_all (is_radix_digit R) ds
             then Some (radix_value R ds) else None)
     | _ \<Rightarrow> None)"

definition exponent_part :: "jsstring \<Rightarrow> int option" where
  "exponent_part r = (case r of
       [] \<Rightarrow> Some 0
     | c # r' \<Rightarrow>
         if c = 101 \<or> c = 69 then
           (let neg = (r' \<noteq> [] \<and> hd r' = 45);
                ds = (if r' \<noteq> [] \<and> (hd r' = 43 \<or> hd r' = 45) then tl r' else r')
            in if ds \<noteq> [] \<and> list_all (is_radix_digit 10) ds
               then Some ((if neg then - 1 else 1) * int (radix_value 10 ds)) else None)
         else None)"

definition decimal_literal :: "jsstring \<Rightarrow> rat option" where
  "decimal_literal t =
    (let ip = takeWhile (is_radix_digit 10) t;
         r1 = dropWhile (is_radix_digit 10) t;
         dot = (r1 \<noteq> [] \<and> hd r1 = 46);
         fp = (if dot then takeWhile (is_radix_digit 10) (tl r1) else []);
         r2 = (if dot then dropWhile (is_radix_digit 10) (tl r1) else r1)
     in if ip = [] \<and> fp = [] then None
        else (case exponent_part r2 of
                None \<Rightarrow> None
              | Some e \<Rightarrow> Some (of_nat (radix_value 10 (ip @ fp)) * pow10 (e - int (length fp)))))"

definition unsigned_literal :: "bool \<Rightarrow> jsstring \<Rightarrow> jsnum" where
  "unsigned_literal neg t =
    (if t = str ''Infinity'' then (if neg then NegInf else PosInf)
     else (case decimal_literal t of
             None \<Rightarrow> NaN
           | Some q \<Rightarrow> fround (if neg then - q else q)))"

definition StringToNumber :: "jsstring \<Rightarrow> jsnum" where
  "StringToNumber s =
    (let t = trim s in
     if t = [] then Fin 0
     else (case non_decimal t of
             Some n \<Rightarrow> fround (of_nat n)
           | None \<Rightarrow>
               if hd t = 43 then unsigned_literal False (tl t)
               else if hd t = 45 then unsigned_literal True (tl t)
               else unsigned_literal False t))"

subsection \<open>Values\<close>

text \<open>
  The values a field of a JSON body or a query parameter can hold, as far as the
  service is modelled: absent (\<open>undefined\<close>), \<open>null\<close>, a boolean, a number or a string.
  Arrays and objects as field values are left out, so everything below that speaks of
  every name or price speaks of these scalar values.
\<close>

datatype jsval = Undefined | Null | Bool bool | Num jsnum | Str jsstring

text \<open>\<open>Number(v)\<close>, which is also the conversion inside \<open>isNaN(v)\<close> and \<open>v < 0\<close>.\<close>

fun ToNumber :: "jsval \<Rightarrow> jsnum" where
  "ToNumber Undefined = NaN"
| "ToNumber Null = Fin 0"
| "ToNumber (Bool b) = (if b then Fin 1 else Fin 0)"
| "ToNumber (Num n) = n"
| "ToNumber (Str s) = StringToNumber s"

definition isNaN :: "jsval \<Rightarrow> bool" where
  "isNaN v = (ToNumber v = NaN)"

text \<open>The truth value of \<open>v\<close> in a condition, so that \<open>!v\<close> is \<open>\<not> truthy v\<close>.\<close>

fun truthy :: "jsval \<Rightarrow> bool" where
  "truthy Undefined = False"
| "truthy Null = False"
| "truthy (Bool b) = b"
| "truthy (Num n) = (n \<noteq> NaN \<and> n \<noteq> Fin 0)"
| "truthy (Str s) = (s \<noteq> [])"

subsection \<open>\<open>Number.prototype.toFixed\<close>\<close>

text \<open>The decimal digits of a natural number, most significant first.\<close>

fun dec_digits :: "nat \<Rightarrow> jsstring" where
  "dec_digits n = (if n < 10 then [48 + n] else dec_digits (n div 10) @ [48 + n mod 10])"

declare dec_digits.simps [simp del]

text \<open>
  A string made from a number: either spelled out, or \<open>String_of x\<close>, the text that
  \<open>String(x)\<close> gives for a finite \<open>x\<close> of magnitude \<open>10^21\<close> or more (exponent notation,
  such as \<open>1e+21\<close>), which is not spelled out here.
\<close>

datatype number_text = Text jsstring | String_of rat

text \<open>
  \<open>x.toFixed(f)\<close>. A value that is not finite prints as its name, and a finite value of
  magnitude \<open>10^21\<close> or more prints as \<open>String(x)\<close> does. Below \<open>10^21\<close> the integer \<open>n\<close>
  nearest to \<open>x * 10^f\<close> is taken (the larger one on a tie), written in decimal, padded
  with zeros to \<open>f + 1\<close> digits, and a point is put before the last \<open>f\<close> digits; a minus
  sign goes in front for a negative \<open>x\<close>.
\<close>

definition toFixed :: "nat \<Rightarrow> jsnum \<Rightarrow> number_text" where
  "toFixed f x = (case x of
       NaN \<Rightarrow> Text (str ''NaN'')
     | PosInf \<Rightarrow> Text (str ''Infinity'')
     | NegInf \<Rightarrow> Text (str ''-Infinity'')
     | Fin q \<Rightarrow>
         (let s = (if q < 0 then [45] else []);
              a = \<bar>q\<bar>
          in if 10 ^ 21 \<le> a then String_of q
             else
               (let n = nat \<lfloor>a * 10 ^ f + 1 / 2\<rfloor>;
                    m = dec_digits n;
                    m1 = (if length m \<le> f then replicate (f + 1 - length m) 48 @ m else m);
                    k = length m1
                in if f \<noteq> 0 then Text (s @ take (k - f) m1 @ [46] @ drop (k - f) m1)
                   else Text (s @ m))))"

subsection \<open>The catalogue\<close>

record product =
  id' :: jsnum
  name :: jsval
  price :: jsnum

text \<open>The four records the array holds at start-up (lines 14 to 19).\<close>

definition products_init :: "product list" where
  "products_init =
    [\<lparr>id' = Fin 1,
      name = Str [1057, 1084, 1072, 1088, 1090, 1092, 1086, 1085, 32, 88, 32, 80, 114, 111],
      price = Fin 49990\<rparr>,
     \<lparr>id' = Fin 2,
      name = Str [1053, 1086, 1091, 1090, 1073, 1091, 1082, 32, 85, 108, 116, 114, 97, 32, 49, 53],
      price = Fin 89990\<rparr>,
     \<lparr>id' = Fin 3,
      name = Str [1041, 1077, 1089, 1087, 1088, 1086, 1074, 1086, 1076, 1085, 1099, 1077, 32,
                  1085, 1072, 1091, 1096, 1085, 1080, 1082, 1080],
      price = Fin 5990\<rparr>,
     \<lparr>id' = Fin 4,
      name = Str [1059, 1084, 1085, 1099, 1077, 32, 1095, 1072, 1089, 1099, 32, 87, 97, 116, 99,
                  104, 32, 53],
      price = Fin 15990\<rparr>]"

text \<open>
  The test \<open>p.id === parseInt(id)\<close> of \<open>findProductById\<close> and of the delete handler.
\<close>

definition id_matches :: "jsstring \<Rightarrow> product \<Rightarrow> bool" where
  "id_matches ident p = js_strict_eq (id' p) (parseInt ident)"

definition findProductById :: "product list \<Rightarrow> jsstring \<Rightarrow> product option" where
  "findProductById products ident = find (id_matches ident) products"

text \<open>\<open>Array.prototype.findIndex\<close>: the first position that satisfies the test, or \<open>-1\<close>.\<close>

fun findIndex :: "('a \<Rightarrow> bool) \<Rightarrow> 'a list \<Rightarrow> int" where
  "findIndex P [] = - 1"
| "findIndex P (x # xs) =
     (if P x then 0 else (let i = findIndex P xs in if i = - 1 then - 1 else i + 1))"

text \<open>
  The update handlers assign to fields of the object that \<open>findProductById\<close> returned,
  which is the first element of the array that passes the test. \<open>write_back\<close> puts the
  object's new contents at that position; the assignments never touch \<open>id\<close>, so the
  position is the same after each of them.
\<close>

fun write_back :: "product list \<Rightarrow> jsstring \<Rightarrow> product \<Rightarrow> product list" where
  "write_back [] ident q = []"
| "write_back (p # ps) ident q =
     (if id_matches ident p then q # ps else p # write_back ps ident q)"

subsection \<open>Responses\<close>

text \<open>
  The three \<open>{ error: ... }\<close> bodies: the missing-fields and the invalid-price message
  go with status 400 (the spec's ValidationError), the not-found message with status
  404 (NotFoundError).
\<close>

datatype error = MissingFields | InvalidPrice | NotFound

text \<open>
  \<open>averagePrice\<close> is the number 0 or the string that \<open>toFixed\<close> made.
\<close>

datatype average = AvgNumber jsnum | AvgString number_text

record summary =
  totalProducts :: nat
  totalValue :: jsnum
  averagePrice :: average
  cheapestProduct :: "product option"
  mostExpensiveProduct :: "product option"

text \<open>
  One constructor for each shape of body the handlers send; the fixed \<open>message\<close> text
  of the create, replace, patch and delete bodies is left out.
\<close>

datatype body =
    ErrorBody error
  | ProductBody product
  | CreatedBody product
  | UpdatedBody product
  | PatchedBody product
  | DeletedBody product
  | ListBody "product list"
  | SummaryBody summary

record response =
  status :: nat
  body :: body

definition respond :: "nat \<Rightarrow> body \<Rightarrow> response" where
  "respond code b = \<lparr>status = code, body = b\<rparr>"

subsection \<open>The route handlers\<close>

text \<open>
  What \<open>Date.now()\<close> and \<open>Math.random()\<close> return during one request: a whole number of
  milliseconds, and a number from 0 up to but not including 1.
\<close>

record env =
  now :: int
  random :: rat

text \<open>
  \<open>POST /products\<close> (lines 55 to 89). \<open>name\<close> and \<open>price\<close> are the two fields taken from
  the body.
\<close>

definition post_products ::
  "env \<Rightarrow> jsval \<Rightarrow> jsval \<Rightarrow> product list \<Rightarrow> response \<times> product list" where
  "post_products e nm pr products =
    (if \<not> truthy nm \<or> pr = Undefined then (respond 400 (ErrorBody MissingFields), products)
     else if isNaN pr \<or> js_lt (ToNumber pr) (Fin 0)
       then (respond 400 (ErrorBody InvalidPrice), products)
     else
       (let newProduct =
              \<lparr>id' = js_add (Fin (of_int (now e)))
                            (Math_floor (js_mul (Fin (random e)) (Fin 1000))),
               name = nm,
               price = ToNumber pr\<rparr>
        in (respond 201 (CreatedBody newProduct), products @ [newProduct])))"

text \<open>\<open>GET /products\<close> (lines 95 to 112), with the two query parameters.\<close>

definition get_products :: "jsval \<Rightarrow> jsval \<Rightarrow> product list \<Rightarrow> response" where
  "get_products minPrice maxPrice products =
    (let filtered1 = (if truthy minPrice
                      then filter (\<lambda>p. js_ge (price p) (ToNumber minPrice)) products
                      else products);
         filtered2 = (if truthy maxPrice
                      then filter (\<lambda>p. js_le (price p) (ToNumber maxPrice)) filtered1
                      else filtered1)
     in respond 200 (ListBody filtered2))"

text \<open>\<open>GET /products/:id\<close> (lines 118 to 128).\<close>

definition get_product :: "jsstring \<Rightarrow> product list \<Rightarrow> response" where
  "get_product ident products =
    (case findProductById products ident of
       None \<Rightarrow> respond 404 (ErrorBody NotFound)
     | Some product \<Rightarrow> respond 200 (ProductBody product))"

text \<open>\<open>PUT /products/:id\<close> (lines 134 to 166).\<close>

definition put_product ::
  "jsstring \<Rightarrow> jsval \<Rightarrow> jsval \<Rightarrow> product list \<Rightarrow> response \<times> product list" where
  "put_product ident nm pr products =
    (case findProductById products ident of
       None \<Rightarrow> (respond 404 (ErrorBody NotFound), products)
     | Some product \<Rightarrow>
         if \<not> truthy nm \<or> pr = Undefined
           then (respond 400 (ErrorBody MissingFields), products)
         else if isNaN pr \<or> js_lt (ToNumber pr) (Fin 0)
           then (respond 400 (ErrorBody InvalidPrice), products)
         else
           (let product1 = product\<lparr>name := nm\<rparr>;
                product2 = product1\<lparr>price := ToNumber pr\<rparr>
            in (respond 200 (UpdatedBody product2), write_back products ident product2)))"

text \<open>
  \<open>PATCH /products/:id\<close> (lines 172 to 201). The name is assigned before the price is
  looked at, so the array of the invalid-price branch holds the object with the name
  already assigned.
\<close>

definition patch_product ::
  "jsstring \<Rightarrow> jsval \<Rightarrow> jsval \<Rightarrow> product list \<Rightarrow> response \<times> product list" where
  "patch_product ident nm pr products =
    (case findProductById products ident of
       None \<Rightarrow> (respond 404 (ErrorBody NotFound), products)
     | Some product \<Rightarrow>
         (let product1 = (if nm \<noteq> Undefined then product\<lparr>name := nm\<rparr> else product)
          in if pr \<noteq> Undefined then
               (if isNaN pr \<or> js_lt (ToNumber pr) (Fin 0)
                  then (respond 400 (ErrorBody InvalidPrice),
                        write_back products ident product1)
                else
                  (let product2 = product1\<lparr>price := ToNumber pr\<rparr>
                   in (respond 200 (PatchedBody product2),
                       write_back products ident product2)))
             else (respond 200 (PatchedBody product1), write_back products ident product1)))"

text \<open>\<open>DELETE /products/:id\<close> (lines 207 to 224); \<open>splice(i, 1)\<close> removes position \<open>i\<close>.\<close>

definition splice1 :: "'a list \<Rightarrow> nat \<Rightarrow> 'a list" where
  "splice1 xs i = take i xs @ drop (Suc i) xs"

definition delete_product :: "jsstring \<Rightarrow> product list \<Rightarrow> response \<times> product list" where
  "delete_product ident products =
    (let productIndex = findIndex (id_matches ident) products
     in if productIndex = - 1 then (respond 404 (ErrorBody NotFound), products)
        else
          (let deletedProduct = products ! nat productIndex
           in (respond 200 (DeletedBody deletedProduct), splice1 products (nat productIndex))))"

text \<open>
  \<open>GET /products/stats/summary\<close> (lines 229 to 247). \<open>null\<close> is \<open>None\<close>; the average is
  the number 0 for an empty array and a string otherwise.
\<close>

definition get_summary :: "product list \<Rightarrow> response" where
  "get_summary products =
    (let total_products = length products;
         total_value = foldl (\<lambda>sum p. js_add sum (price p)) (Fin 0) products;
         average_price = (if total_products > 0
                          then AvgString (toFixed 2 (js_div_count total_value total_products))
                          else AvgNumber (Fin 0));
         cheapest = (if length products > 0
                     then Some (foldl (\<lambda>m p. if js_lt (price p) (price m) then p else m)
                                  (products ! 0) products)
                     else None);
         most_expensive = (if length products > 0
                           then Some (foldl (\<lambda>m p. if js_gt (price p) (price m) then p else m)
                                        (products ! 0) products)
                           else None)
     in respond 200 (SummaryBody
          \<lparr>totalProducts = total_products,
           totalValue = total_value,
           averagePrice = average_price,
           cheapestProduct = cheapest,
           mostExpensiveProduct = most_expensive\<rparr>))"

subsection \<open>The states the service can be in\<close>

text \<open>
  The array starts as \<open>products_init\<close> and changes only through the four handlers that
  write to it, each called with any request data.
\<close>

inductive reachable :: "product list \<Rightarrow> bool" where
  start: "reachable products_init"
| post: "reachable ps \<Longrightarrow> reachable (snd (post_products e nm pr ps))"
| put: "reachable ps \<Longrightarrow> reachable (snd (put_product ident nm pr ps))"
| patch: "reachable ps \<Longrightarrow> reachable (snd (patch_product ident nm pr ps))"
| delete: "reachable ps \<Longrightarrow> reachable (snd (delete_product ident ps))"

subsection \<open>Request data and the words of the specification\<close>

text \<open>
  A query parameter is absent or carries the string after its \<open>=\<close> sign (a parameter
  that is repeated, which the query parser turns into an array, is left out).
\<close>

definition query_value :: "jsstring option \<Rightarrow> jsval" where
  "query_value q = (case q of None \<Rightarrow> Undefined | Some s \<Rightarrow> Str s)"

text \<open>A price bound counts as given when the parameter is there with a value.\<close>

definition given :: "jsstring option \<Rightarrow> bool" where
  "given q = (q \<noteq> None \<and> q \<noteq> Some [])"

text \<open>A record is within the given bounds: at least the lower one, at most the upper one.\<close>

definition price_in_range :: "jsstring option \<Rightarrow> jsstring option \<Rightarrow> product \<Rightarrow> bool" where
  "price_in_range lo hi p =
     ((given lo \<longrightarrow> js_ge (price p) (ToNumber (query_value lo)))
      \<and> (given hi \<longrightarrow> js_le (price p) (ToNumber (query_value hi))))"

text \<open>
  An id string names a record of the array: it parses to a number, and some record has
  that number as its id. This speaks of the ids in the array only, not of the way the
  handlers search it.
\<close>

definition id_present :: "product list \<Rightarrow> jsstring \<Rightarrow> bool" where
  "id_present ps ident = (parseInt ident \<noteq> NaN \<and> parseInt ident \<in> id' ` set ps)"

text \<open>
  The test that the create and the replace handler apply to the two body fields
  (lines 60 and 67, again at lines 146 and 152).
\<close>

definition fields_rejected :: "jsval \<Rightarrow> jsval \<Rightarrow> bool" where
  "fields_rejected nm pr =
     (\<not> truthy nm \<or> pr = Undefined \<or> isNaN pr \<or> js_lt (ToNumber pr) (Fin 0))"

text \<open>
  The same conditions in the words of the specification: a name is missing or empty;
  a price is missing, not numeric (its conversion to a number is \<open>NaN\<close>), or negative.
\<close>

definition name_missing_or_empty :: "jsval \<Rightarrow> bool" where
  "name_missing_or_empty nm = (nm = Undefined \<or> nm = Null \<or> nm = Str [])"

definition price_missing_non_numeric_or_negative :: "jsval \<Rightarrow> bool" where
  "price_missing_non_numeric_or_negative pr =
     (pr = Undefined \<or> ToNumber pr = NaN \<or> js_lt (ToNumber pr) (Fin 0))"

text \<open>
  The record at position \<open>i\<close> has the least price, and is the first such record: no
  record is cheaper, and every record before it is dearer. Likewise for the greatest
  price.
\<close>

definition first_cheapest :: "product list \<Rightarrow> nat \<Rightarrow> bool" where
  "first_cheapest ps i =
     (i < length ps
      \<and> (\<forall>q\<in>set ps. js_le (price (ps ! i)) (price q))
      \<and> (\<forall>q\<in>set (take i ps). js_lt (price (ps ! i)) (price q)))"

definition first_dearest :: "product list \<Rightarrow> nat \<Rightarrow> bool" where
  "first_dearest ps i =
     (i < length ps
      \<and> (\<forall>q\<in>set ps. js_ge (price (ps ! i)) (price q))
      \<and> (\<forall>q\<in>set (take i ps). js_gt (price (ps ! i)) (price q)))"

text \<open>
  A number that is not negative, rounded to two decimal places (a half goes up) and
  written out: the digits of the whole part, a point, and two digits.
\<close>

definition two_decimals :: "rat \<Rightarrow> jsstring" where
  "two_decimals q =
    (let n = nat \<lfloor>q * 100 + 1 / 2\<rfloor>
     in dec_digits (n div 100) @ [46, 48 + n mod 100 div 10, 48 + n mod 10])"

text \<open>
  A text with two decimal places: an optional minus sign, one or more digits, a point
  and two digits.
\<close>

definition two_decimal_places :: "jsstring \<Rightarrow> bool" where
  "two_decimal_places t =
    (let u = (if t \<noteq> [] \<and> hd t = 45 then tl t else t);
         n = length u
     in 4 \<le> n \<and> u ! (n - 3) = 46
        \<and> list_all (is_radix_digit 10) (take (n - 3) u)
        \<and> list_all (is_radix_digit 10) (drop (n - 2) u))"

text \<open>
  Two requests of the examples, 125 milliseconds apart in 2023, with the random numbers
  one half and three eighths.
\<close>

definition env0 :: env where
  "env0 = \<lparr>now = 1700000000000, random = 1 / 2\<rparr>"

definition env1 :: env where
  "env1 = \<lparr>now = 1700000000125, random = 3 / 8\<rparr>"

text \<open>The array after a create request at \<open>env0\<close> and another at \<open>env1\<close>.\<close>

definition collided :: "product list" where
  "collided =
     snd (post_products env1 (Str (str ''B'')) (Num (Fin 2))
       (snd (post_products env0 (Str (str ''A'')) (Num (Fin 1)) products_init)))"

section \<open>Properties\<close>

subsection \<open>Rounding\<close>

text \<open>A whole number below \<open>2^53\<close> is a binary64 value, so rounding leaves it alone.\<close>

lemma round_even_of_int: "round_even (of_int k) = k"
  by (simp add: round_even_def)

lemma fround_not_NaN: "fround x \<noteq> NaN"
  by (simp add: fround_def Let_def)

lemma ilog2_of_nat:
  assumes "0 < n"
  shows "ilog2 (of_nat n) = bitlen (int n) - 1"
proof -
  have q: "quotient_of (of_nat n :: rat) = (int n, 1)"
    using quotient_of_int [of "int n"] by simp
  have b1: "bitlen 1 = 1"
    by (simp add: bitlen_alt_def)
  have ge: "1 \<le> bitlen (int n)"
    using assms by (simp add: bitlen_alt_def)
  have "(2::int) ^ nat (bitlen (int n) - 1) \<le> int n"
    using bitlen_bounds [of "int n"] assms by simp
  then have "(of_int ((2::int) ^ nat (bitlen (int n) - 1)) :: rat) \<le> of_int (int n)"
    by (rule of_int_le_iff [THEN iffD2])
  then have "pow2 (bitlen (int n) - 1) \<le> of_nat n"
    using ge by (simp add: pow2_def)
  then show ?thesis
    by (simp add: ilog2_def q b1 Let_def)
qed

lemma fround_of_nat:
  assumes "n < 2 ^ 53"
  shows "fround (of_nat n) = Fin (of_nat n)"
proof (cases "n = 0")
  case True
  then show ?thesis by (simp add: fround_def)
next
  case False
  then have pos: "0 < n" by simp
  define e where "e = bitlen (int n) - 1"
  have e0: "0 \<le> e"
    using pos by (simp add: e_def bitlen_alt_def)
  have "bitlen (int n) \<le> 53"
    using assms by (simp add: bitlen_le_iff_power)
  then have e52: "e \<le> 52" by (simp add: e_def)
  define k where "k = nat (52 - e)"
  have ulp: "pow2 (e - 52) = 1 / 2 ^ k"
    using e52 by (cases "e = 52") (simp_all add: pow2_def k_def)
  have quot: "(of_nat n :: rat) / pow2 (e - 52) = of_int (int n * 2 ^ k)"
    by (simp add: ulp)
  have r: "of_int (round_even ((of_nat n :: rat) / pow2 (e - 52))) * pow2 (e - 52) = of_nat n"
    unfolding quot round_even_of_int by (simp add: ulp)
  have "(of_nat n :: rat) < of_nat (2 ^ 53)"
    using assms by (rule of_nat_less_iff [THEN iffD2])
  also have "\<dots> \<le> pow2 1024"
    by (simp add: pow2_def)
  finally have small: "\<not> pow2 1024 \<le> (of_nat n :: rat)" by simp
  have m: "max e (- 1022) = e" using e0 by simp
  show ?thesis
    using pos small
    by (simp add: fround_def ilog2_of_nat [OF pos] Let_def m r flip: e_def)
qed

lemma fround_numeral: "numeral w < (2::nat) ^ 53 \<Longrightarrow> fround (numeral w) = Fin (numeral w)"
  using fround_of_nat [of "numeral w"] by simp

subsection \<open>Searching and updating the array\<close>

lemma write_back_update:
  "i < length ps \<Longrightarrow> id_matches ident (ps ! i) \<Longrightarrow> \<forall>j<i. \<not> id_matches ident (ps ! j)
   \<Longrightarrow> write_back ps ident q = ps[i := q]"
proof (induction ps arbitrary: i)
  case Nil
  then show ?case by simp
next
  case (Cons p ps)
  show ?case
  proof (cases i)
    case 0
    with Cons.prems show ?thesis by simp
  next
    case (Suc k)
    from Cons.prems Suc have "\<not> id_matches ident p" by auto
    moreover have "write_back ps ident q = ps[k := q]"
      using Cons.prems Suc by (intro Cons.IH) auto
    ultimately show ?thesis using Suc by simp
  qed
qed

lemma findProductById_Some:
  "findProductById ps ident = Some p \<longleftrightarrow>
     (\<exists>i<length ps. ps ! i = p \<and> id_matches ident p \<and> (\<forall>j<i. \<not> id_matches ident (ps ! j)))"
  unfolding findProductById_def find_Some_iff by auto

lemma findProductById_None:
  "findProductById ps ident = None \<longleftrightarrow> (\<forall>p\<in>set ps. \<not> id_matches ident p)"
  unfolding findProductById_def find_None_iff by auto

lemma findIndex_ge: "- 1 \<le> findIndex P xs"
  by (induction xs) (auto simp: Let_def)

lemma findIndex_none: "findIndex P xs = - 1 \<longleftrightarrow> (\<forall>x\<in>set xs. \<not> P x)"
proof (induction xs)
  case Nil
  then show ?case by simp
next
  case (Cons x xs)
  have "findIndex P xs + 1 \<noteq> - 1"
    using findIndex_ge [of P xs] by linarith
  with Cons show ?case by (auto simp: Let_def)
qed

lemma findIndex_first:
  "findIndex P xs \<noteq> - 1 \<Longrightarrow>
     nat (findIndex P xs) < length xs \<and> P (xs ! nat (findIndex P xs))
     \<and> (\<forall>j<nat (findIndex P xs). \<not> P (xs ! j))"
proof (induction xs)
  case Nil
  then show ?case by simp
next
  case (Cons x xs)
  show ?case
  proof (cases "P x")
    case True
    then show ?thesis by simp
  next
    case False
    with Cons.prems have ne: "findIndex P xs \<noteq> - 1" by (auto simp: Let_def split: if_splits)
    have ge: "0 \<le> findIndex P xs" using findIndex_ge [of P xs] ne by linarith
    have eq: "nat (findIndex P (x # xs)) = Suc (nat (findIndex P xs))"
      using False ne ge by (simp add: Let_def nat_add_distrib)
    from Cons.IH [OF ne] show ?thesis
      unfolding eq using False by (auto simp: less_Suc_eq_0_disj)
  qed
qed

subsection \<open>Evaluating the conversions on examples\<close>

lemma fround_one: "fround 1 = Fin 1"
  using fround_of_nat [of 1] by simp

lemmas parse_simps = parseInt_def str_def is_ws_def is_radix_digit_def digit_of_def
  radix_value_def fround_numeral fround_one

lemmas number_simps = StringToNumber_def trim_def non_decimal_def unsigned_literal_def
  decimal_literal_def exponent_part_def pow10_def str_def is_ws_def is_radix_digit_def
  digit_of_def radix_value_def fround_numeral fround_one

lemmas lookup_simps = findProductById_def id_matches_def js_strict_eq_def products_init_def

lemma js_ge_zero_iff: "js_ge x (Fin 0) \<longleftrightarrow> x \<noteq> NaN \<and> \<not> js_lt x (Fin 0)"
  by (cases x) (auto simp: js_ge_def js_le_def js_strict_eq_def)

lemma parseInt_1: "parseInt (str ''1'') = Fin 1"
  by (simp add: parse_simps)

lemma parseInt_3: "parseInt (str ''3'') = Fin 3"
  by (simp add: parse_simps)

lemma parseInt_abc: "parseInt (str ''abc'') = NaN"
  by (simp add: parse_simps)

lemma first_match_unique:
  "i < length ps \<Longrightarrow> \<forall>j<i. \<not> P (ps ! j) \<Longrightarrow> P (ps ! 0) \<Longrightarrow> i = 0"
  by (cases i) auto

lemma parseInt_1abc: "parseInt (str ''1abc'') = Fin 1"
  by (simp add: parse_simps)

lemma parseInt_collided: "parseInt (str ''1700000000500'') = Fin 1700000000500"
  by (simp add: parse_simps)

lemma first_create:
  "post_products env0 (Str (str ''A'')) (Num (Fin 1)) products_init =
     (respond 201 (CreatedBody \<lparr>id' = Fin 1700000000500, name = Str (str ''A''), price = Fin 1\<rparr>),
      products_init @ [\<lparr>id' = Fin 1700000000500, name = Str (str ''A''), price = Fin 1\<rparr>])"
  by (simp add: post_products_def isNaN_def env0_def fround_numeral str_def Let_def)

lemma second_create:
  "post_products env1 (Str (str ''B'')) (Num (Fin 2))
      (products_init @ [\<lparr>id' = Fin 1700000000500, name = Str (str ''A''), price = Fin 1\<rparr>]) =
     (respond 201 (CreatedBody \<lparr>id' = Fin 1700000000500, name = Str (str ''B''), price = Fin 2\<rparr>),
      products_init @ [\<lparr>id' = Fin 1700000000500, name = Str (str ''A''), price = Fin 1\<rparr>,
                       \<lparr>id' = Fin 1700000000500, name = Str (str ''B''), price = Fin 2\<rparr>])"
  by (simp add: post_products_def isNaN_def env1_def fround_numeral str_def Let_def)

lemma collided_eq:
  "collided = products_init @ [\<lparr>id' = Fin 1700000000500, name = Str (str ''A''), price = Fin 1\<rparr>,
                       \<lparr>id' = Fin 1700000000500, name = Str (str ''B''), price = Fin 2\<rparr>]"
  by (simp add: collided_def first_create second_create)

lemma reachable_collided: "reachable collided"
  unfolding collided_def by (intro reachable.post reachable.start)

lemma id_matches_NaN: "parseInt ident = NaN \<Longrightarrow> \<not> id_matches ident p"
  by (simp add: id_matches_def js_strict_eq_def)

lemma StringToNumber_empty: "StringToNumber [] = Fin 0"
  by (simp add: StringToNumber_def trim_def)

lemma js_ge_NaN: "\<not> js_ge x NaN"
  by (cases x) (simp_all add: js_ge_def js_le_def js_strict_eq_def)

lemma js_le_NaN: "\<not> js_le x NaN"
  by (cases x) (simp_all add: js_le_def js_strict_eq_def)

lemma StringToNumber_1abc: "StringToNumber (str ''1abc'') = NaN"
  by (simp add: number_simps)

lemma StringToNumber_abc: "StringToNumber (str ''abc'') = NaN"
  by (simp add: number_simps)

lemma StringToNumber_10000: "StringToNumber (str ''10000'') = Fin 10000"
  by (simp add: number_simps)

lemma str_eq_Nil: "str s = [] \<longleftrightarrow> s = []"
  by (simp add: str_def)

lemma truthy_query_value: "truthy (query_value q) = given q"
  by (cases q) (simp_all add: query_value_def given_def)

lemma get_products_filter:
  "get_products (query_value lo) (query_value hi) ps
     = respond 200 (ListBody (filter (price_in_range lo hi) ps))"
  by (cases "given lo"; cases "given hi")
    (simp_all add: get_products_def truthy_query_value price_in_range_def [abs_def])

lemma falsy_iff:
  "\<not> truthy v \<longleftrightarrow>
     name_missing_or_empty v \<or> v = Bool False \<or> v = Num (Fin 0) \<or> v = Num NaN"
  by (cases v) (auto simp: name_missing_or_empty_def)

subsection \<open>Prices of the records the service can hold\<close>

lemma set_write_back: "set (write_back ps ident q) \<subseteq> insert q (set ps)"
  by (induction ps) auto

lemma set_splice1: "set (splice1 xs i) \<subseteq> set xs"
  unfolding splice1_def using set_take_subset [of i xs] set_drop_subset [of "Suc i" xs]
  by auto

lemma findProductById_mem: "findProductById ps ident = Some p \<Longrightarrow> p \<in> set ps"
  unfolding findProductById_Some by auto

lemma reachable_prices:
  "reachable ps \<Longrightarrow> \<forall>p\<in>set ps. js_ge (price p) (Fin 0)"
proof (induction rule: reachable.induct)
  case start
  show ?case
    by (simp add: products_init_def js_ge_def js_le_def)
next
  case (post ps e nm pr)
  then show ?case
    by (auto simp: post_products_def Let_def js_ge_zero_iff isNaN_def)
next
  case (put ps ident nm pr)
  show ?case
  proof (cases "findProductById ps ident")
    case None
    with put show ?thesis by (simp add: put_product_def)
  next
    case (Some p)
    show ?thesis
    proof (cases "fields_rejected nm pr")
      case True
      with Some put show ?thesis
        by (auto simp: put_product_def fields_rejected_def)
    next
      case False
      then have eq: "snd (put_product ident nm pr ps)
          = write_back ps ident (p\<lparr>name := nm, price := ToNumber pr\<rparr>)"
        using Some by (simp add: put_product_def fields_rejected_def Let_def)
      have "js_ge (ToNumber pr) (Fin 0)"
        using False by (simp add: fields_rejected_def js_ge_zero_iff isNaN_def)
      with put.IH set_write_back [of ps ident "p\<lparr>name := nm, price := ToNumber pr\<rparr>"]
      show ?thesis unfolding eq by auto
    qed
  qed
next
  case (patch ps ident nm pr)
  show ?case
  proof (cases "findProductById ps ident")
    case None
    with patch show ?thesis by (simp add: patch_product_def)
  next
    case (Some p)
    then have p: "js_ge (price p) (Fin 0)"
      using patch.IH findProductById_mem by blast
    have "\<exists>q. snd (patch_product ident nm pr ps) = write_back ps ident q
        \<and> js_ge (price q) (Fin 0)"
      using Some p
      by (auto simp: patch_product_def Let_def js_ge_zero_iff isNaN_def)
    then obtain q where q: "snd (patch_product ident nm pr ps) = write_back ps ident q"
        "js_ge (price q) (Fin 0)"
      by blast
    with patch.IH set_write_back [of ps ident q] show ?thesis by auto
  qed
next
  case (delete ps ident)
  have "set (snd (delete_product ident ps)) \<subseteq> set ps"
    using set_splice1 [of ps] by (auto simp: delete_product_def Let_def)
  with delete.IH show ?case by blast
qed

subsection \<open>The fold that picks the cheapest and the dearest record\<close>

text \<open>
  \<open>better x m\<close> says that \<open>x\<close> replaces the record \<open>m\<close> picked so far. When \<open>better\<close>
  is asymmetric and, on the records of the list, carries over from \<open>m\<close> to everything
  that is not better than \<open>m\<close>, the fold ends with the first record that no record is
  better than.
\<close>

lemma foldl_pick_first:
  fixes better :: "'a \<Rightarrow> 'a \<Rightarrow> bool"
  assumes asym: "\<And>a b. better a b \<Longrightarrow> \<not> better b a"
    and carry: "\<And>x m z. better x m \<Longrightarrow> \<not> better z m \<Longrightarrow> z \<in> S \<Longrightarrow> better x z"
    and sub: "set ys \<union> set xs \<subseteq> S"
    and i: "i < length ys"
    and best: "\<forall>z\<in>set ys. \<not> better z (ys ! i)"
    and first: "\<forall>z\<in>set (take i ys). better (ys ! i) z"
  shows "\<exists>k<length (ys @ xs). foldl (\<lambda>m p. if better p m then p else m) (ys ! i) xs = (ys @ xs) ! k
     \<and> (\<forall>z\<in>set (ys @ xs). \<not> better z ((ys @ xs) ! k))
     \<and> (\<forall>z\<in>set (take k (ys @ xs)). better ((ys @ xs) ! k) z)"
  using sub i best first
proof (induction xs arbitrary: ys i)
  case Nil
  then show ?case by auto
next
  case (Cons x xs)
  let ?zs = "ys @ [x]"
  have 0: "set ?zs \<union> set xs \<subseteq> S" using Cons.prems(1) by auto
  show ?case
  proof (cases "better x (ys ! i)")
    case True
    have 1: "length ys < length ?zs" by simp
    have self: "\<not> better x x" using asym by blast
    have all: "\<forall>z\<in>set ys. better x z"
      using carry [OF True] Cons.prems(1,3) by auto
    have 2: "\<forall>z\<in>set ?zs. \<not> better z (?zs ! length ys)"
      using all asym self by auto
    have 3: "\<forall>z\<in>set (take (length ys) ?zs). better (?zs ! length ys) z"
      using all by simp
    from Cons.IH [OF 0 1 2 3] True show ?thesis by simp
  next
    case False
    have 1: "i < length ?zs" using Cons.prems(2) by simp
    have 2: "\<forall>z\<in>set ?zs. \<not> better z (?zs ! i)"
      using Cons.prems(2,3) False by (auto simp: nth_append)
    have 3: "\<forall>z\<in>set (take i ?zs). better (?zs ! i) z"
      using Cons.prems(2,4) by (simp add: nth_append)
    from Cons.IH [OF 0 1 2 3] False Cons.prems(2) show ?thesis
      by (simp add: nth_append)
  qed
qed

lemma foldl_pick_first_whole:
  fixes better :: "'a \<Rightarrow> 'a \<Rightarrow> bool"
  assumes asym: "\<And>a b. better a b \<Longrightarrow> \<not> better b a"
    and carry: "\<And>x m z. better x m \<Longrightarrow> \<not> better z m \<Longrightarrow> z \<in> S \<Longrightarrow> better x z"
    and sub: "set ps \<subseteq> S"
    and ne: "ps \<noteq> []"
  shows "\<exists>k<length ps. foldl (\<lambda>m p. if better p m then p else m) (ps ! 0) ps = ps ! k
     \<and> (\<forall>z\<in>set ps. \<not> better z (ps ! k))
     \<and> (\<forall>z\<in>set (take k ps). better (ps ! k) z)"
proof -
  from ne obtain p rest where ps: "ps = p # rest" by (cases ps) auto
  have self: "\<not> better p p" using asym by blast
  have "\<exists>k<length ([p] @ rest).
      foldl (\<lambda>m p. if better p m then p else m) ([p] ! 0) rest = ([p] @ rest) ! k
     \<and> (\<forall>z\<in>set ([p] @ rest). \<not> better z (([p] @ rest) ! k))
     \<and> (\<forall>z\<in>set (take k ([p] @ rest)). better (([p] @ rest) ! k) z)"
    by (rule foldl_pick_first [OF asym carry, where S = S]) (use self sub ps in auto)
  then show ?thesis
    using self by (simp add: ps)
qed

subsection \<open>Sums and quotients of prices\<close>

lemma pow2_pos: "0 < pow2 e"
  by (simp add: pow2_def)

lemma round_even_nonneg: "0 \<le> q \<Longrightarrow> 0 \<le> round_even q"
  by (auto simp: round_even_def Let_def)

lemma js_ge_zero_cases: "js_ge x (Fin 0) \<longleftrightarrow> x = PosInf \<or> (\<exists>r\<ge>0. x = Fin r)"
  by (cases x) (auto simp: js_ge_def js_le_def js_strict_eq_def)

lemma fround_nonneg:
  assumes "0 \<le> x"
  shows "js_ge (fround x) (Fin 0)"
proof (cases "x = 0")
  case True
  then show ?thesis by (simp add: fround_def js_ge_zero_cases)
next
  case False
  define u where "u = pow2 (max (ilog2 \<bar>x\<bar>) (- 1022) - 52)"
  define r where "r = of_int (round_even (\<bar>x\<bar> / u)) * u"
  have "0 < u" by (simp add: u_def pow2_pos)
  then have "0 \<le> \<bar>x\<bar> / u" by simp
  then have "0 \<le> round_even (\<bar>x\<bar> / u)" by (rule round_even_nonneg)
  with \<open>0 < u\<close> have r: "0 \<le> r" by (simp add: r_def)
  have "fround x = (if pow2 1024 \<le> r then PosInf else Fin r)"
    using False assms by (simp add: fround_def Let_def r_def u_def)
  with r show ?thesis by (simp add: js_ge_zero_cases)
qed

lemma js_add_nonneg:
  assumes "js_ge a (Fin 0)" "js_ge b (Fin 0)"
  shows "js_ge (js_add a b) (Fin 0)"
proof -
  from assms consider "a = PosInf" | "b = PosInf" | r s where "a = Fin r" "b = Fin s" "0 \<le> r" "0 \<le> s"
    unfolding js_ge_zero_cases by blast
  then show ?thesis
  proof cases
    case 1
    with assms(2) show ?thesis by (cases b) (simp_all add: js_ge_zero_cases)
  next
    case 2
    with assms(1) show ?thesis by (cases a) (simp_all add: js_ge_zero_cases)
  next
    case 3
    then show ?thesis by (simp add: fround_nonneg)
  qed
qed

lemma js_div_count_nonneg:
  assumes "js_ge a (Fin 0)"
  shows "js_ge (js_div_count a n) (Fin 0)"
proof (cases a)
  case (Fin r)
  with assms have "0 \<le> r" by (simp add: js_ge_zero_cases)
  then have "0 \<le> r / of_nat n" by simp
  then show ?thesis using Fin by (simp add: fround_nonneg)
qed (use assms in simp_all)

lemma foldl_js_add_nonneg:
  "js_ge a (Fin 0) \<Longrightarrow> \<forall>p\<in>set ps. js_ge (price p) (Fin 0)
   \<Longrightarrow> js_ge (foldl (\<lambda>sum p. js_add sum (price p)) a ps) (Fin 0)"
  by (induction ps arbitrary: a) (simp_all add: js_add_nonneg)

lemma foldl_js_add_map:
  "foldl (\<lambda>sum p. js_add sum (price p)) a ps = foldl js_add a (map price ps)"
  by (simp add: foldl_map)

text \<open>Whole-number prices whose sum stays below \<open>2^53\<close> add up without rounding.\<close>

lemma foldl_js_add_exact:
  "a + sum_list ks < 2 ^ 53
   \<Longrightarrow> foldl js_add (Fin (of_nat a)) (map (\<lambda>k. Fin (of_nat k)) ks) = Fin (of_nat (a + sum_list ks))"
proof (induction ks arbitrary: a)
  case Nil
  then show ?case by simp
next
  case (Cons k ks)
  have "a + k < 2 ^ 53" using Cons.prems by simp
  then have "fround (of_nat (a + k)) = Fin (of_nat (a + k))"
    by (rule fround_of_nat)
  then have step: "js_add (Fin (of_nat a)) (Fin (of_nat k)) = Fin (of_nat (a + k))"
    by simp
  have less: "a + k + sum_list ks < 2 ^ 53" using Cons.prems by simp
  have "foldl js_add (Fin (of_nat a)) (map (\<lambda>k. Fin (of_nat k)) (k # ks))
      = foldl js_add (Fin (of_nat (a + k))) (map (\<lambda>k. Fin (of_nat k)) ks)"
    by (simp only: list.map foldl_Cons step)
  also have "\<dots> = Fin (of_nat (a + k + sum_list ks))"
    by (rule Cons.IH [OF less])
  also have "a + k + sum_list ks = a + sum_list (k # ks)"
    by simp
  finally show ?case .
qed

subsection \<open>Two decimal places\<close>

lemma dec_digits_small: "n < 10 \<Longrightarrow> dec_digits n = [48 + n]"
  by (simp add: dec_digits.simps)

lemma dec_digits_step: "10 \<le> n \<Longrightarrow> dec_digits n = dec_digits (n div 10) @ [48 + n mod 10]"
  by (subst dec_digits.simps) simp

lemma dec_digits_nonempty: "dec_digits n \<noteq> []"
  by (cases "n < 10") (simp_all add: dec_digits_small dec_digits_step)

lemma dec_digits_are_digits: "list_all (is_radix_digit 10) (dec_digits n)"
proof (induction n rule: dec_digits.induct)
  case (1 n)
  show ?case
  proof (cases "n < 10")
    case True
    then show ?thesis
      by (simp add: dec_digits_small is_radix_digit_def digit_of_def)
  next
    case False
    have "n mod 10 < 10" by simp
    then have "is_radix_digit 10 (48 + n mod 10)"
      by (simp add: is_radix_digit_def digit_of_def)
    with False 1 show ?thesis
      by (simp add: dec_digits_step)
  qed
qed

lemma dec_digits_length_ge: "10 ^ k \<le> n \<Longrightarrow> k < length (dec_digits n)"
proof (induction k arbitrary: n)
  case 0
  then show ?case using dec_digits_nonempty [of n] by (cases "dec_digits n") auto
next
  case (Suc k)
  have p: "10 * 10 ^ k \<le> n" using Suc.prems by simp
  have "(10::nat) * 1 \<le> 10 * 10 ^ k" by (rule mult_le_mono2) simp
  with p have ten: "10 \<le> n" by linarith
  have "10 ^ k * 10 \<le> n" using Suc.prems by (simp add: mult.commute)
  then have "10 ^ k \<le> n div 10"
    by (simp add: less_eq_div_iff_mult_less_eq)
  from Suc.IH [OF this] ten show ?case
    by (simp add: dec_digits_step)
qed

lemma dec_digits_hundreds:
  assumes "100 \<le> n"
  shows "dec_digits n = dec_digits (n div 100) @ [48 + n mod 100 div 10, 48 + n mod 10]"
proof -
  have a: "dec_digits n = dec_digits (n div 10) @ [48 + n mod 10]"
    using assms by (simp add: dec_digits_step)
  have "10 \<le> n div 10" using assms by simp
  then have b: "dec_digits (n div 10) = dec_digits (n div 10 div 10) @ [48 + n div 10 mod 10]"
    by (rule dec_digits_step)
  have c: "n div 10 div 10 = n div 100"
    using div_mult2_eq [of n 10 10] by simp
  have d: "n div 10 mod 10 = n mod 100 div 10"
    using mod_mult2_eq [of n 10 10] by simp
  show ?thesis
    unfolding a b c d by simp
qed

lemma toFixed_two_decimals:
  assumes "0 \<le> q" "q < 10 ^ 21"
  shows "toFixed 2 (Fin q) = Text (two_decimals q)"
proof -
  define n where "n = nat \<lfloor>q * 100 + 1 / 2\<rfloor>"
  have pad: "(let m = dec_digits n;
        m1 = (if length m \<le> 2 then replicate (2 + 1 - length m) 48 @ m else m);
        k = length m1
        in take (k - 2) m1 @ [46] @ drop (k - 2) m1)
      = dec_digits (n div 100) @ [46, 48 + n mod 100 div 10, 48 + n mod 10]"
  proof -
    consider "n < 10" | "10 \<le> n" "n < 100" | "100 \<le> n" by linarith
    then show ?thesis
    proof cases
      case 1
      then have "dec_digits n = [48 + n]" "n div 100 = 0" "n mod 100 div 10 = 0" "n mod 10 = n"
        by (simp_all add: dec_digits_small)
      then show ?thesis
        by (simp add: dec_digits_small numeral_3_eq_3 numeral_2_eq_2)
    next
      case 2
      then have "n div 10 < 10" by simp
      then have "dec_digits n = [48 + n div 10, 48 + n mod 10]"
        using 2 by (simp add: dec_digits_step dec_digits_small)
      moreover have "n div 100 = 0" "n mod 100 div 10 = n div 10"
        using 2 by simp_all
      ultimately show ?thesis
        by (simp add: dec_digits_small numeral_2_eq_2)
    next
      case 3
      then have len: "2 < length (dec_digits n)"
        using dec_digits_length_ge [of 2 n] by simp
      have eq: "dec_digits n
          = dec_digits (n div 100) @ [48 + n mod 100 div 10, 48 + n mod 10]"
        using 3 by (rule dec_digits_hundreds)
      have "length (dec_digits n) - 2 = length (dec_digits (n div 100))"
        unfolding eq by simp
      with len show ?thesis
        unfolding Let_def by (simp add: eq)
    qed
  qed
  have "toFixed 2 (Fin q) = Text
      (let m = dec_digits n;
        m1 = (if length m \<le> 2 then replicate (2 + 1 - length m) 48 @ m else m);
        k = length m1
        in take (k - 2) m1 @ [46] @ drop (k - 2) m1)"
    using assms by (simp add: toFixed_def Let_def n_def)
  also have "\<dots> = Text (two_decimals q)"
    unfolding pad by (simp add: two_decimals_def Let_def n_def)
  finally show ?thesis .
qed

lemma two_decimal_places_two_decimals: "two_decimal_places (two_decimals q)"
proof -
  define n where "n = nat \<lfloor>q * 100 + 1 / 2\<rfloor>"
  define ds where "ds = dec_digits (n div 100)"
  have ds: "ds \<noteq> []" "list_all (is_radix_digit 10) ds"
    by (simp_all add: ds_def dec_digits_nonempty dec_digits_are_digits)
  then have hd: "hd ds \<noteq> 45"
    by (cases ds) (auto simp: is_radix_digit_def digit_of_def split: if_splits)
  have d1: "is_radix_digit 10 (48 + n mod 100 div 10)"
  proof -
    have "n mod 100 div 10 < 10" by simp
    then show ?thesis by (simp add: is_radix_digit_def digit_of_def)
  qed
  have d2: "is_radix_digit 10 (48 + n mod 10)"
  proof -
    have "n mod 10 < 10" by simp
    then show ?thesis by (simp add: is_radix_digit_def digit_of_def)
  qed
  have eq: "two_decimals q = ds @ [46, 48 + n mod 100 div 10, 48 + n mod 10]"
    by (simp add: two_decimals_def Let_def n_def ds_def)
  have len: "1 \<le> length ds" using ds(1) by (cases ds) auto
  show ?thesis
    unfolding eq two_decimal_places_def
    using ds hd d1 d2 len by (simp add: Let_def nth_append hd_append)
qed

subsection \<open>The summary\<close>

lemma js_lt_asym: "js_lt a b \<Longrightarrow> \<not> js_lt b a"
  by (cases a; cases b) auto

lemma js_lt_carry: "js_lt x m \<Longrightarrow> \<not> js_lt z m \<Longrightarrow> z \<noteq> NaN \<Longrightarrow> js_lt x z"
  by (cases x; cases m; cases z) auto

lemma js_lt_carry_up: "js_lt m x \<Longrightarrow> \<not> js_lt m z \<Longrightarrow> z \<noteq> NaN \<Longrightarrow> js_lt z x"
  by (cases x; cases m; cases z) auto

lemma not_js_lt_iff: "a \<noteq> NaN \<Longrightarrow> b \<noteq> NaN \<Longrightarrow> \<not> js_lt b a \<longleftrightarrow> js_le a b"
  by (cases a; cases b) (auto simp: js_le_def js_strict_eq_def)

lemma js_ge_not_NaN: "js_ge x (Fin 0) \<Longrightarrow> x \<noteq> NaN"
  by (simp add: js_ge_zero_iff)

lemma cheapest_fold:
  assumes "\<forall>p\<in>set ps. price p \<noteq> NaN" "ps \<noteq> []"
  shows "\<exists>i. first_cheapest ps i
    \<and> foldl (\<lambda>m p. if js_lt (price p) (price m) then p else m) (ps ! 0) ps = ps ! i"
proof -
  have "\<exists>k<length ps.
      foldl (\<lambda>m p. if js_lt (price p) (price m) then p else m) (ps ! 0) ps = ps ! k
     \<and> (\<forall>z\<in>set ps. \<not> js_lt (price z) (price (ps ! k)))
     \<and> (\<forall>z\<in>set (take k ps). js_lt (price (ps ! k)) (price z))"
  proof (rule foldl_pick_first_whole [where S = "{p. price p \<noteq> NaN}"])
    show "js_lt (price a) (price b) \<Longrightarrow> \<not> js_lt (price b) (price a)" for a b :: product
      by (rule js_lt_asym)
    show "js_lt (price x) (price m) \<Longrightarrow> \<not> js_lt (price z) (price m)
        \<Longrightarrow> z \<in> {p. price p \<noteq> NaN} \<Longrightarrow> js_lt (price x) (price z)" for x m z :: product
      using js_lt_carry [of "price x" "price m" "price z"] by simp
    show "set ps \<subseteq> {p. price p \<noteq> NaN}" using assms(1) by auto
    show "ps \<noteq> []" by (rule assms(2))
  qed
  then obtain k where k: "k < length ps"
      "foldl (\<lambda>m p. if js_lt (price p) (price m) then p else m) (ps ! 0) ps = ps ! k"
      "\<forall>z\<in>set ps. \<not> js_lt (price z) (price (ps ! k))"
      "\<forall>z\<in>set (take k ps). js_lt (price (ps ! k)) (price z)"
    by blast
  have "price (ps ! k) \<noteq> NaN" using assms(1) k(1) by simp
  then have "\<forall>z\<in>set ps. js_le (price (ps ! k)) (price z)"
    using k(3) assms(1) by (simp add: not_js_lt_iff)
  with k show ?thesis
    unfolding first_cheapest_def by blast
qed

lemma dearest_fold:
  assumes "\<forall>p\<in>set ps. price p \<noteq> NaN" "ps \<noteq> []"
  shows "\<exists>i. first_dearest ps i
    \<and> foldl (\<lambda>m p. if js_gt (price p) (price m) then p else m) (ps ! 0) ps = ps ! i"
proof -
  have "\<exists>k<length ps.
      foldl (\<lambda>m p. if js_gt (price p) (price m) then p else m) (ps ! 0) ps = ps ! k
     \<and> (\<forall>z\<in>set ps. \<not> js_gt (price z) (price (ps ! k)))
     \<and> (\<forall>z\<in>set (take k ps). js_gt (price (ps ! k)) (price z))"
  proof (rule foldl_pick_first_whole [where S = "{p. price p \<noteq> NaN}"])
    show "js_gt (price a) (price b) \<Longrightarrow> \<not> js_gt (price b) (price a)" for a b :: product
      unfolding js_gt_def by (rule js_lt_asym)
    show "js_gt (price x) (price m) \<Longrightarrow> \<not> js_gt (price z) (price m)
        \<Longrightarrow> z \<in> {p. price p \<noteq> NaN} \<Longrightarrow> js_gt (price x) (price z)" for x m z :: product
      unfolding js_gt_def using js_lt_carry_up [of "price m" "price x" "price z"] by simp
    show "set ps \<subseteq> {p. price p \<noteq> NaN}" using assms(1) by auto
    show "ps \<noteq> []" by (rule assms(2))
  qed
  then obtain k where k: "k < length ps"
      "foldl (\<lambda>m p. if js_gt (price p) (price m) then p else m) (ps ! 0) ps = ps ! k"
      "\<forall>z\<in>set ps. \<not> js_gt (price z) (price (ps ! k))"
      "\<forall>z\<in>set (take k ps). js_gt (price (ps ! k)) (price z)"
    by blast
  have "price (ps ! k) \<noteq> NaN" using assms(1) k(1) by simp
  then have "\<forall>z\<in>set ps. js_ge (price (ps ! k)) (price z)"
    using k(3) assms(1) by (simp add: not_js_lt_iff js_gt_def js_ge_def)
  with k show ?thesis
    unfolding first_dearest_def by blast
qed

lemma floor_numeral_div: "\<lfloor>(numeral a :: rat) / numeral b\<rfloor> = numeral a div numeral b"
  by (metis floor_divide_of_int_eq of_int_numeral)

lemma n_seed: "nat \<lfloor>\<bar>40490::rat\<bar> * 10 ^ 2 + 1 / 2\<rfloor> = 4049000"
  by (simp add: floor_numeral_div)

lemma dd: "dec_digits 4049000 = str ''4049000''"
  by (simp add: dec_digits.simps str_def)

lemma toFixed_seed: "toFixed 2 (Fin 40490) = Text (str ''40490.00'')"
  unfolding toFixed_def jsnum.case Let_def n_seed dd
  by (simp add: str_def)

lemma summary_seed:
  "get_summary products_init = respond 200 (SummaryBody
      \<lparr>totalProducts = 4, totalValue = Fin 161960,
       averagePrice = AvgString (Text (str ''40490.00'')),
       cheapestProduct = Some (products_init ! 2),
       mostExpensiveProduct = Some (products_init ! 1)\<rparr>)"
proof -
  have len: "length products_init = 4"
    by (simp add: products_init_def)
  have "get_summary products_init = respond 200 (SummaryBody
      \<lparr>totalProducts = length products_init, totalValue = Fin 161960,
       averagePrice = AvgString (Text (str ''40490.00'')),
       cheapestProduct = Some (products_init ! 2),
       mostExpensiveProduct = Some (products_init ! 1)\<rparr>)"
    by (simp add: get_summary_def products_init_def fround_numeral toFixed_seed Let_def
          js_gt_def)
  then show ?thesis
    unfolding len .
qed

lemma parseInt_2: "parseInt (str ''2'') = Fin 2"
  by (simp add: parse_simps)

lemma delete_second:
  "delete_product (str ''2'') products_init
     = (respond 200 (DeletedBody (products_init ! 1)),
        [products_init ! 0, products_init ! 2, products_init ! 3])"
  by (simp add: delete_product_def splice1_def lookup_simps parseInt_2 Let_def)

lemma n_three: "nat \<lfloor>(23990::rat) * 100 + 1 / 2\<rfloor> = 2399000"
  by (simp add: floor_numeral_div)

lemma two_decimals_three: "two_decimals 23990 = str ''23990.00''"
proof -
  have "dec_digits 23990 = str ''23990''"
    by (simp add: dec_digits.simps str_def)
  then show ?thesis
    unfolding two_decimals_def Let_def n_three by (simp add: str_def)
qed

lemma StringToNumber_Infinity: "StringToNumber (str ''Infinity'') = PosInf"
  by (simp add: number_simps)

lemma create_infinite:
  "post_products env0 (Str (str ''TV'')) (Str (str ''Infinity'')) products_init
     = (respond 201 (CreatedBody
          \<lparr>id' = Fin 1700000000500, name = Str (str ''TV''), price = PosInf\<rparr>),
        products_init @ [\<lparr>id' = Fin 1700000000500, name = Str (str ''TV''), price = PosInf\<rparr>])"
  by (simp add: post_products_def isNaN_def StringToNumber_Infinity env0_def fround_numeral
        str_eq_Nil Let_def)

lemma parseInt_4: "parseInt (str ''4'') = Fin 4"
  by (simp add: parse_simps)

lemma delete_all:
  "snd (delete_product (str ''4'') (snd (delete_product (str ''3'')
     (snd (delete_product (str ''2'') (snd (delete_product (str ''1'') products_init))))))) = []"
  by (simp add: delete_product_def splice1_def lookup_simps parseInt_1 parseInt_2 parseInt_3
        parseInt_4 Let_def)

lemma reachable_empty: "reachable []"
proof -
  have "reachable (snd (delete_product (str ''4'') (snd (delete_product (str ''3'')
     (snd (delete_product (str ''2'') (snd (delete_product (str ''1'') products_init))))))))"
    by (intro reachable.delete reachable.start)
  then show ?thesis
    unfolding delete_all .
qed

lemma first_index_unique:
  assumes "i < length xs" "P (xs ! i)" "\<forall>j<i. \<not> P (xs ! j)"
    "k < length xs" "P (xs ! k)" "\<forall>j<k. \<not> P (xs ! j)"
  shows "i = k"
proof (rule ccontr)
  assume "i \<noteq> k"
  then consider "i < k" | "k < i" by linarith
  then show False using assms by cases auto
qed

text \<open>
  What the delete handler does for an id that matches a record: it removes the first
  matching record, keeps all the others in their order, and answers with the removed
  record. When no other record has that id, a lookup of the id afterwards finds nothing.
\<close>

lemma delete_product_found:
  assumes "findProductById ps ident = Some p"
  shows "\<exists>i<length ps. ps ! i = p \<and> (\<forall>j<i. \<not> id_matches ident (ps ! j))
     \<and> delete_product ident ps = (respond 200 (DeletedBody p), take i ps @ drop (Suc i) ps)
     \<and> length (snd (delete_product ident ps)) + 1 = length ps
     \<and> (distinct (map id' ps) \<longrightarrow>
          get_product ident (snd (delete_product ident ps)) = respond 404 (ErrorBody NotFound))"
proof -
  from assms obtain i where i: "i < length ps" "ps ! i = p" "id_matches ident (ps ! i)"
      "\<forall>j<i. \<not> id_matches ident (ps ! j)"
    unfolding findProductById_Some by blast
  let ?k = "findIndex (id_matches ident) ps"
  have ne: "?k \<noteq> - 1"
    using i(1,3) by (auto simp: findIndex_none)
  have "nat ?k = i"
    using findIndex_first [OF ne] i
    by (intro first_index_unique [of "nat ?k" ps "id_matches ident" i]) blast+
  then have del: "delete_product ident ps
      = (respond 200 (DeletedBody p), take i ps @ drop (Suc i) ps)"
    using ne i(2) by (simp add: delete_product_def splice1_def Let_def)
  have len: "length (snd (delete_product ident ps)) + 1 = length ps"
    unfolding del using i(1) by simp
  have gone: "get_product ident (snd (delete_product ident ps)) = respond 404 (ErrorBody NotFound)"
    if d: "distinct (map id' ps)"
  proof -
    have "\<not> id_matches ident q" if q: "q \<in> set (take i ps @ drop (Suc i) ps)" for q
    proof
      assume m: "id_matches ident q"
      have "\<exists>j<length ps. j \<noteq> i \<and> ps ! j = q"
      proof (cases "q \<in> set (take i ps)")
        case True
        then obtain j where "j < length (take i ps)" "take i ps ! j = q"
          unfolding in_set_conv_nth by blast
        then have "j < length ps \<and> j \<noteq> i \<and> ps ! j = q"
          using i(1) by simp
        then show ?thesis by blast
      next
        case False
        with q have "q \<in> set (drop (Suc i) ps)" by simp
        then obtain j where "j < length (drop (Suc i) ps)" "drop (Suc i) ps ! j = q"
          unfolding in_set_conv_nth by blast
        then have "Suc i + j < length ps \<and> Suc i + j \<noteq> i \<and> ps ! (Suc i + j) = q"
          using i(1) by simp
        then show ?thesis by blast
      qed
      then obtain j where j: "j < length ps" "j \<noteq> i" "ps ! j = q"
        by blast
      from m i(3) have "id' (ps ! j) = id' (ps ! i)"
        using j(3) by (simp add: id_matches_def js_strict_eq_def)
      with d j(1,2) i(1) show False
        by (simp add: distinct_conv_nth)
    qed
    then have "findProductById (take i ps @ drop (Suc i) ps) ident = None"
      by (simp add: findProductById_None)
    then show ?thesis
      unfolding del by (simp add: get_product_def)
  qed
  from i del len gone show ?thesis by blast
qed

text \<open>
  What the patch handler does when it rejects the price of a body, for an id that
  matches a record: the first matching record has the name of the body by then, if the
  body has one; without a name in the body the array is as it was.
\<close>

lemma patch_product_invalid_price:
  assumes "findProductById ps ident = Some p"
    and "pr \<noteq> Undefined" "isNaN pr \<or> js_lt (ToNumber pr) (Fin 0)"
  shows "\<exists>i<length ps. ps ! i = p \<and> (\<forall>j<i. \<not> id_matches ident (ps ! j))
     \<and> patch_product ident nm pr ps
         = (respond 400 (ErrorBody InvalidPrice),
            ps[i := p\<lparr>name := (if nm \<noteq> Undefined then nm else name p)\<rparr>])
     \<and> (nm = Undefined \<longrightarrow> snd (patch_product ident nm pr ps) = ps)"
proof -
  from assms(1) obtain i where i: "i < length ps" "ps ! i = p" "id_matches ident p"
      "\<forall>j<i. \<not> id_matches ident (ps ! j)"
    unfolding findProductById_Some by blast
  have wb: "write_back ps ident q = ps[i := q]" for q
    using i by (intro write_back_update) auto
  have eq: "patch_product ident nm pr ps
         = (respond 400 (ErrorBody InvalidPrice),
            ps[i := p\<lparr>name := (if nm \<noteq> Undefined then nm else name p)\<rparr>])"
    using assms by (simp add: patch_product_def wb Let_def)
  have "ps[i := p] = ps"
    unfolding i(2) [symmetric] by (rule list_update_id)
  then have "nm = Undefined \<longrightarrow> snd (patch_product ident nm pr ps) = ps"
    unfolding eq by simp
  with i eq show ?thesis by blast
qed

text \<open>
  \<open>parseInt\<close> gives \<open>NaN\<close> exactly when no digit follows the leading white space, the
  optional sign and the optional \<open>0x\<close>.
\<close>

lemma parseInt_NaN_iff:
  "parseInt s = NaN \<longleftrightarrow>
    (let S = dropWhile is_ws s;
         S1 = (if S \<noteq> [] \<and> (hd S = 43 \<or> hd S = 45) then tl S else S);
         hex = (case S1 of a # b # _ \<Rightarrow> a = 48 \<and> (b = 120 \<or> b = 88) | _ \<Rightarrow> False)
     in takeWhile (is_radix_digit (if hex then 16 else 10)) (if hex then drop 2 S1 else S1) = [])"
  by (simp add: parseInt_def Let_def fround_not_NaN)

subsection \<open>Lookup by the parsed id\<close>

lemma id_matches_iff: "id_matches ident p \<longleftrightarrow> parseInt ident \<noteq> NaN \<and> id' p = parseInt ident"
  by (auto simp: id_matches_def js_strict_eq_def)

lemma findProductById_None_iff: "findProductById ps ident = None \<longleftrightarrow> \<not> id_present ps ident"
  unfolding findProductById_None id_matches_iff id_present_def image_iff by metis

lemma findProductById_Some_id:
  "findProductById ps ident = Some p \<longleftrightarrow>
     (\<exists>i<length ps. ps ! i = p \<and> parseInt ident \<noteq> NaN \<and> id' (ps ! i) = parseInt ident
        \<and> (\<forall>j<i. id' (ps ! j) \<noteq> parseInt ident))"
  unfolding findProductById_Some by (auto simp: id_matches_iff)

lemma id_present_first:
  assumes "id_present ps ident"
  shows "\<exists>i<length ps. findProductById ps ident = Some (ps ! i)
     \<and> id' (ps ! i) = parseInt ident \<and> (\<forall>j<i. id' (ps ! j) \<noteq> parseInt ident)"
proof -
  from assms have "findProductById ps ident \<noteq> None"
    by (simp add: findProductById_None_iff)
  then obtain p where "findProductById ps ident = Some p" by auto
  then show ?thesis
    unfolding findProductById_Some_id by blast
qed

lemma parseInt_99: "parseInt (str ''99'') = Fin 99"
  by (simp add: parse_simps)

lemma parseInt_0x2z: "parseInt (str ''0x2z'') = Fin 2"
  by (simp add: parse_simps)

lemma parseInt_0x: "parseInt (str ''0x'') = NaN"
  by (simp add: parse_simps)

lemma StringToNumber_0x2z: "StringToNumber (str ''0x2z'') = NaN"
  by (simp add: number_simps)

lemma absent_99: "\<not> id_present products_init (str ''99'')"
  by (simp add: id_present_def parseInt_99 products_init_def)

lemma present_1: "id_present products_init (str ''1'')"
  by (simp add: id_present_def parseInt_1 products_init_def)

lemma write_back_same_parse:
  "parseInt ident = parseInt ident' \<Longrightarrow> write_back ps ident q = write_back ps ident' q"
  by (induction ps) (simp_all add: id_matches_def)

lemma handlers_same_parse:
  assumes "parseInt ident = parseInt ident'"
  shows "get_product ident ps = get_product ident' ps"
    and "put_product ident nm pr ps = put_product ident' nm pr ps"
    and "patch_product ident nm pr ps = patch_product ident' nm pr ps"
    and "delete_product ident ps = delete_product ident' ps"
proof -
  have m: "id_matches ident = id_matches ident'"
    using assms by (simp add: fun_eq_iff id_matches_def)
  then have f: "findProductById ps ident = findProductById ps ident'"
    by (simp add: findProductById_def)
  have w: "write_back ps ident q = write_back ps ident' q" for q
    using assms by (rule write_back_same_parse)
  show "get_product ident ps = get_product ident' ps"
    by (simp add: get_product_def f)
  show "put_product ident nm pr ps = put_product ident' nm pr ps"
    unfolding put_product_def f w ..
  show "patch_product ident nm pr ps = patch_product ident' nm pr ps"
    unfolding patch_product_def f w ..
  show "delete_product ident ps = delete_product ident' ps"
    by (simp add: delete_product_def m)
qed

lemma absent_id_not_found:
  assumes "\<not> id_present ps ident"
  shows "findProductById ps ident = None"
    and "get_product ident ps = respond 404 (ErrorBody NotFound)"
    and "put_product ident nm pr ps = (respond 404 (ErrorBody NotFound), ps)"
    and "patch_product ident nm pr ps = (respond 404 (ErrorBody NotFound), ps)"
    and "delete_product ident ps = (respond 404 (ErrorBody NotFound), ps)"
proof -
  show none: "findProductById ps ident = None"
    using assms by (simp add: findProductById_None_iff)
  then have "\<forall>p\<in>set ps. \<not> id_matches ident p"
    by (simp add: findProductById_None)
  then have "findIndex (id_matches ident) ps = - 1"
    by (simp add: findIndex_none)
  then show "delete_product ident ps = (respond 404 (ErrorBody NotFound), ps)"
    by (simp add: delete_product_def)
  show "get_product ident ps = respond 404 (ErrorBody NotFound)"
    by (simp add: get_product_def none)
  show "put_product ident nm pr ps = (respond 404 (ErrorBody NotFound), ps)"
    by (simp add: put_product_def none)
  show "patch_product ident nm pr ps = (respond 404 (ErrorBody NotFound), ps)"
    by (simp add: patch_product_def none)
qed

lemma present_id_found:
  assumes "id_present ps ident"
  shows "\<exists>i<length ps. id' (ps ! i) = parseInt ident \<and> (\<forall>j<i. id' (ps ! j) \<noteq> parseInt ident)
     \<and> findProductById ps ident = Some (ps ! i)
     \<and> get_product ident ps = respond 200 (ProductBody (ps ! i))
     \<and> delete_product ident ps
         = (respond 200 (DeletedBody (ps ! i)), take i ps @ drop (Suc i) ps)
     \<and> status (fst (put_product ident nm pr ps)) \<noteq> 404
     \<and> status (fst (patch_product ident nm pr ps)) \<noteq> 404"
proof -
  from id_present_first [OF assms] obtain i where i: "i < length ps"
      "findProductById ps ident = Some (ps ! i)" "id' (ps ! i) = parseInt ident"
      "\<forall>j<i. id' (ps ! j) \<noteq> parseInt ident"
    by blast
  have nn: "parseInt ident \<noteq> NaN"
    using assms by (simp add: id_present_def)
  have mi: "id_matches ident (ps ! i)"
    using i(3) nn by (simp add: id_matches_iff)
  have before: "\<forall>j<i. \<not> id_matches ident (ps ! j)"
    using i(4) by (simp add: id_matches_iff)
  from delete_product_found [OF i(2)] obtain k where k: "k < length ps" "ps ! k = ps ! i"
      "\<forall>j<k. \<not> id_matches ident (ps ! j)"
      "delete_product ident ps
         = (respond 200 (DeletedBody (ps ! i)), take k ps @ drop (Suc k) ps)"
    by blast
  have "id_matches ident (ps ! k)"
    using mi k(2) by simp
  with k(1,3) i(1) mi before have "k = i"
    by (intro first_index_unique [of k ps "id_matches ident" i]) blast+
  with k(4) have del: "delete_product ident ps
         = (respond 200 (DeletedBody (ps ! i)), take i ps @ drop (Suc i) ps)"
    by simp
  have get: "get_product ident ps = respond 200 (ProductBody (ps ! i))"
    by (simp add: get_product_def i(2))
  have put: "status (fst (put_product ident nm pr ps)) \<noteq> 404"
    by (simp add: put_product_def i(2) respond_def Let_def)
  have patch: "status (fst (patch_product ident nm pr ps)) \<noteq> 404"
    by (simp add: patch_product_def i(2) respond_def Let_def)
  from i del get put patch show ?thesis by blast
qed

section \<open>The claims\<close>

text \<open>
  C1, evaluated on two create requests 125 milliseconds apart: both are answered with
  status 201, the second record gets the id that the first one has, and the array, which
  the service can reach, holds two records with one id.
\<close>

theorem post_products_id_collision:
  "post_products env0 (Str (str ''A'')) (Num (Fin 1)) products_init =
     (respond 201 (CreatedBody \<lparr>id' = Fin 1700000000500, name = Str (str ''A''), price = Fin 1\<rparr>),
      products_init @ [\<lparr>id' = Fin 1700000000500, name = Str (str ''A''), price = Fin 1\<rparr>])
   \<and> fst (post_products env1 (Str (str ''B'')) (Num (Fin 2))
           (products_init @ [\<lparr>id' = Fin 1700000000500, name = Str (str ''A''), price = Fin 1\<rparr>]))
      = respond 201 (CreatedBody \<lparr>id' = Fin 1700000000500, name = Str (str ''B''), price = Fin 2\<rparr>)
   \<and> reachable collided
   \<and> \<not> distinct (map id' collided)"
proof (intro conjI)
  show "reachable collided"
    by (rule reachable_collided)
  show "\<not> distinct (map id' collided)"
    by (simp add: collided_eq)
qed (simp_all add: first_create second_create)

theorem post_products_id_collision_witness:
  "reachable collided \<and> \<not> distinct (map id' collided)"
  using post_products_id_collision by blast

text \<open>
  C2, as the code has it. The create handler answers 400, with the missing-fields or
  the invalid-price message and without touching the array, exactly when the name is
  falsy (absent, \<open>null\<close>, \<open>false\<close>, the number 0 or \<open>NaN\<close>, or the empty string) or the price
  is absent, or converts to \<open>NaN\<close>, or is negative. In every other case it answers 201
  with the new record, which carries the name as given and the price as a number, and
  the array afterwards is the old one with the new record at its end.
\<close>

theorem post_products_spec:
  "(status (fst (post_products e nm pr ps)) = 400 \<longleftrightarrow>
      \<not> truthy nm \<or> price_missing_non_numeric_or_negative pr)
   \<and> (\<not> truthy nm \<longleftrightarrow>
        name_missing_or_empty nm \<or> nm = Bool False \<or> nm = Num (Fin 0) \<or> nm = Num NaN)
   \<and> (status (fst (post_products e nm pr ps)) = 400 \<longrightarrow>
        snd (post_products e nm pr ps) = ps
        \<and> body (fst (post_products e nm pr ps))
            \<in> {ErrorBody MissingFields, ErrorBody InvalidPrice})
   \<and> (status (fst (post_products e nm pr ps)) \<noteq> 400 \<longrightarrow>
        (\<exists>newProduct. post_products e nm pr ps
            = (respond 201 (CreatedBody newProduct), ps @ [newProduct])
          \<and> name newProduct = nm \<and> price newProduct = ToNumber pr))"
proof -
  have rej: "fields_rejected nm pr \<longleftrightarrow> \<not> truthy nm \<or> price_missing_non_numeric_or_negative pr"
    by (auto simp: fields_rejected_def price_missing_non_numeric_or_negative_def isNaN_def)
  show ?thesis
  proof (cases "fields_rejected nm pr")
    case True
    then have "status (fst (post_products e nm pr ps)) = 400
        \<and> snd (post_products e nm pr ps) = ps
        \<and> body (fst (post_products e nm pr ps))
            \<in> {ErrorBody MissingFields, ErrorBody InvalidPrice}"
      by (auto simp: post_products_def fields_rejected_def respond_def)
    with True rej falsy_iff [of nm] show ?thesis by simp
  next
    case False
    then have "\<exists>newProduct. post_products e nm pr ps
            = (respond 201 (CreatedBody newProduct), ps @ [newProduct])
          \<and> name newProduct = nm \<and> price newProduct = ToNumber pr"
      by (simp add: post_products_def fields_rejected_def Let_def)
    moreover from this have "status (fst (post_products e nm pr ps)) \<noteq> 400"
      by (auto simp: respond_def)
    ultimately show ?thesis
      using False rej falsy_iff [of nm] by simp
  qed
qed

theorem post_products_spec_witness:
  "status (fst (post_products env0 (Str (str ''TV'')) (Str (str ''100'')) products_init)) \<noteq> 400
   \<and> (\<exists>newProduct. post_products env0 (Str (str ''TV'')) (Str (str ''100'')) products_init
            = (respond 201 (CreatedBody newProduct), products_init @ [newProduct])
          \<and> name newProduct = Str (str ''TV'') \<and> price newProduct = Fin 100)
   \<and> status (fst (post_products env0 (Str (str ''TV'')) (Num (Fin (- 1))) products_init)) = 400
   \<and> snd (post_products env0 (Str (str ''TV'')) (Num (Fin (- 1))) products_init) = products_init"
proof -
  have num: "StringToNumber (str ''100'') = Fin 100"
    by (simp add: number_simps)
  have ok: "\<not> (\<not> truthy (Str (str ''TV''))
      \<or> price_missing_non_numeric_or_negative (Str (str ''100'')))"
    by (simp add: price_missing_non_numeric_or_negative_def number_simps)
  have bad: "\<not> truthy (Str (str ''TV''))
      \<or> price_missing_non_numeric_or_negative (Num (Fin (- 1)))"
    by (simp add: price_missing_non_numeric_or_negative_def)
  have a: "status (fst (post_products env0 (Str (str ''TV'')) (Str (str ''100'')) products_init))
      \<noteq> 400"
    using post_products_spec [of env0 "Str (str ''TV'')" "Str (str ''100'')" products_init] ok
    by blast
  have b: "\<exists>newProduct. post_products env0 (Str (str ''TV'')) (Str (str ''100'')) products_init
            = (respond 201 (CreatedBody newProduct), products_init @ [newProduct])
          \<and> name newProduct = Str (str ''TV'') \<and> price newProduct = Fin 100"
    using post_products_spec [of env0 "Str (str ''TV'')" "Str (str ''100'')" products_init] a
    by (simp add: num)
  have c: "status (fst (post_products env0 (Str (str ''TV'')) (Num (Fin (- 1))) products_init)) = 400
     \<and> snd (post_products env0 (Str (str ''TV'')) (Num (Fin (- 1))) products_init) = products_init"
    using post_products_spec [of env0 "Str (str ''TV'')" "Num (Fin (- 1))" products_init] bad
    by blast
  from a b c show ?thesis by blast
qed

text \<open>
  C2 as stated fails: a body whose name is \<open>false\<close>, or the number 0, has a name that is
  neither missing nor an empty string, and its price 5 is present, numeric and not
  negative, yet the create handler answers 400 with the missing-fields message.
\<close>

theorem post_products_falsy_name_counterexample:
  "\<not> name_missing_or_empty (Bool False)
   \<and> \<not> name_missing_or_empty (Num (Fin 0))
   \<and> \<not> price_missing_non_numeric_or_negative (Num (Fin 5))
   \<and> post_products env0 (Bool False) (Num (Fin 5)) products_init
       = (respond 400 (ErrorBody MissingFields), products_init)
   \<and> post_products env0 (Num (Fin 0)) (Num (Fin 5)) products_init
       = (respond 400 (ErrorBody MissingFields), products_init)"
  by (simp add: name_missing_or_empty_def price_missing_non_numeric_or_negative_def
        post_products_def)

text \<open>
  C3, as the code has it. In every state the service can reach, the summary has status
  200; \<open>totalProducts\<close> is the number of records; \<open>totalValue\<close> is the sum of the prices
  added from left to right in floating point, which is the exact sum when the prices are
  whole numbers and the sum is below \<open>2^53\<close>. For the empty array \<open>averagePrice\<close> is the
  number 0 and both products are \<open>null\<close>. Otherwise \<open>averagePrice\<close> is the string that
  \<open>toFixed(2)\<close> makes of \<open>totalValue / totalProducts\<close>: when that quotient is finite and
  below \<open>10^21\<close> it is not negative and the string is the quotient rounded to two decimal
  places; \<open>cheapestProduct\<close> is the first record with the least price and
  \<open>mostExpensiveProduct\<close> the first record with the greatest price. On the start-up
  array the five values are 4, 161960, \<open>40490.00\<close>, the record with id 3 and the record
  with id 2.
\<close>

theorem get_summary_spec:
  assumes "reachable ps"
  shows "(\<exists>s. get_summary ps = respond 200 (SummaryBody s)
      \<and> totalProducts s = length ps
      \<and> totalValue s = foldl js_add (Fin 0) (map price ps)
      \<and> (\<forall>ks. map price ps = map (\<lambda>k. Fin (of_nat k)) ks \<and> sum_list ks < 2 ^ 53 \<longrightarrow>
            totalValue s = Fin (of_nat (sum_list ks)))
      \<and> (ps = [] \<longrightarrow>
            averagePrice s = AvgNumber (Fin 0)
            \<and> cheapestProduct s = None \<and> mostExpensiveProduct s = None)
      \<and> (ps \<noteq> [] \<longrightarrow>
            averagePrice s = AvgString (toFixed 2 (js_div_count (totalValue s) (length ps)))
            \<and> (\<forall>q. js_div_count (totalValue s) (length ps) = Fin q \<and> q < 10 ^ 21 \<longrightarrow>
                  0 \<le> q \<and> averagePrice s = AvgString (Text (two_decimals q))
                  \<and> two_decimal_places (two_decimals q))
            \<and> (\<exists>i. first_cheapest ps i \<and> cheapestProduct s = Some (ps ! i))
            \<and> (\<exists>i. first_dearest ps i \<and> mostExpensiveProduct s = Some (ps ! i))))
    \<and> get_summary products_init = respond 200 (SummaryBody
          \<lparr>totalProducts = 4, totalValue = Fin 161960,
           averagePrice = AvgString (Text (str ''40490.00'')),
           cheapestProduct = Some (products_init ! 2),
           mostExpensiveProduct = Some (products_init ! 1)\<rparr>)
    \<and> id' (products_init ! 2) = Fin 3 \<and> id' (products_init ! 1) = Fin 2"
proof -
  define total where "total = foldl (\<lambda>sum p. js_add sum (price p)) (Fin 0) ps"
  define avg where "avg = js_div_count total (length ps)"
  define s where "s =
     \<lparr>totalProducts = length ps,
      totalValue = total,
      averagePrice = (if ps = [] then AvgNumber (Fin 0) else AvgString (toFixed 2 avg)),
      cheapestProduct = (if ps = [] then None
         else Some (foldl (\<lambda>m p. if js_lt (price p) (price m) then p else m) (ps ! 0) ps)),
      mostExpensiveProduct = (if ps = [] then None
         else Some (foldl (\<lambda>m p. if js_gt (price p) (price m) then p else m) (ps ! 0) ps))\<rparr>"
  have resp: "get_summary ps = respond 200 (SummaryBody s)"
    by (simp add: get_summary_def s_def total_def avg_def Let_def)
  have inv: "\<forall>p\<in>set ps. js_ge (price p) (Fin 0)"
    using assms by (rule reachable_prices)
  then have nn: "\<forall>p\<in>set ps. price p \<noteq> NaN"
    using js_ge_not_NaN by blast
  have total_map: "total = foldl js_add (Fin 0) (map price ps)"
    unfolding total_def by (rule foldl_js_add_map)
  have exact: "total = Fin (of_nat (sum_list ks))"
    if "map price ps = map (\<lambda>k. Fin (of_nat k)) ks \<and> sum_list ks < 2 ^ 53" for ks
  proof -
    have "foldl js_add (Fin (of_nat 0)) (map (\<lambda>k. Fin (of_nat k)) ks)
        = Fin (of_nat (0 + sum_list ks))"
      by (rule foldl_js_add_exact) (use that in simp)
    with that show ?thesis by (simp add: total_map)
  qed
  have "js_ge (Fin 0) (Fin 0)"
    by (simp add: js_ge_def js_le_def js_strict_eq_def)
  then have "js_ge total (Fin 0)"
    unfolding total_def using inv by (rule foldl_js_add_nonneg)
  then have avg_nonneg: "js_ge avg (Fin 0)"
    unfolding avg_def by (rule js_div_count_nonneg)
  have fixed: "0 \<le> q \<and> AvgString (toFixed 2 avg) = AvgString (Text (two_decimals q))
       \<and> two_decimal_places (two_decimals q)"
    if "avg = Fin q \<and> q < 10 ^ 21" for q
  proof -
    have q: "0 \<le> q" using avg_nonneg that by (simp add: js_ge_zero_cases)
    with that have "toFixed 2 avg = Text (two_decimals q)"
      by (simp add: toFixed_two_decimals)
    with q show ?thesis
      by (simp add: two_decimal_places_two_decimals)
  qed
  have cheap: "\<exists>i. first_cheapest ps i \<and> cheapestProduct s = Some (ps ! i)" if "ps \<noteq> []"
    using cheapest_fold [OF nn that] that by (simp add: s_def)
  have dear: "\<exists>i. first_dearest ps i \<and> mostExpensiveProduct s = Some (ps ! i)" if "ps \<noteq> []"
    using dearest_fold [OF nn that] that by (simp add: s_def)
  have fields: "totalProducts s = length ps" "totalValue s = total"
    "ps = [] \<longrightarrow> averagePrice s = AvgNumber (Fin 0)
            \<and> cheapestProduct s = None \<and> mostExpensiveProduct s = None"
    "ps \<noteq> [] \<longrightarrow> averagePrice s = AvgString (toFixed 2 avg)"
    by (simp_all add: s_def)
  have general: "\<exists>s. get_summary ps = respond 200 (SummaryBody s)
      \<and> totalProducts s = length ps
      \<and> totalValue s = foldl js_add (Fin 0) (map price ps)
      \<and> (\<forall>ks. map price ps = map (\<lambda>k. Fin (of_nat k)) ks \<and> sum_list ks < 2 ^ 53 \<longrightarrow>
            totalValue s = Fin (of_nat (sum_list ks)))
      \<and> (ps = [] \<longrightarrow>
            averagePrice s = AvgNumber (Fin 0)
            \<and> cheapestProduct s = None \<and> mostExpensiveProduct s = None)
      \<and> (ps \<noteq> [] \<longrightarrow>
            averagePrice s = AvgString (toFixed 2 (js_div_count (totalValue s) (length ps)))
            \<and> (\<forall>q. js_div_count (totalValue s) (length ps) = Fin q \<and> q < 10 ^ 21 \<longrightarrow>
                  0 \<le> q \<and> averagePrice s = AvgString (Text (two_decimals q))
                  \<and> two_decimal_places (two_decimals q))
            \<and> (\<exists>i. first_cheapest ps i \<and> cheapestProduct s = Some (ps ! i))
            \<and> (\<exists>i. first_dearest ps i \<and> mostExpensiveProduct s = Some (ps ! i)))"
  proof (intro exI [of _ s] conjI impI allI)
    show "get_summary ps = respond 200 (SummaryBody s)" by (rule resp)
    show "totalProducts s = length ps" by (rule fields(1))
    show "totalValue s = foldl js_add (Fin 0) (map price ps)"
      unfolding fields(2) by (rule total_map)
    show "totalValue s = Fin (of_nat (sum_list ks))"
      if "map price ps = map (\<lambda>k. Fin (of_nat k)) ks \<and> sum_list ks < 2 ^ 53" for ks
      unfolding fields(2) using that by (rule exact)
    show "averagePrice s = AvgNumber (Fin 0)" if "ps = []"
      using fields(3) that by blast
    show "cheapestProduct s = None" if "ps = []"
      using fields(3) that by blast
    show "mostExpensiveProduct s = None" if "ps = []"
      using fields(3) that by blast
    show "averagePrice s = AvgString (toFixed 2 (js_div_count (totalValue s) (length ps)))"
      if "ps \<noteq> []"
      using fields(4) that unfolding fields(2) avg_def by blast
    show "0 \<le> q"
      if "ps \<noteq> []" "js_div_count (totalValue s) (length ps) = Fin q \<and> q < 10 ^ 21" for q
      using fixed [of q] that(2) unfolding fields(2) avg_def by blast
    show "averagePrice s = AvgString (Text (two_decimals q))"
      if "ps \<noteq> []" "js_div_count (totalValue s) (length ps) = Fin q \<and> q < 10 ^ 21" for q
      using fixed [of q] that fields(4) unfolding fields(2) avg_def by simp
    show "two_decimal_places (two_decimals q)"
      if "ps \<noteq> []" "js_div_count (totalValue s) (length ps) = Fin q \<and> q < 10 ^ 21" for q
      by (rule two_decimal_places_two_decimals)
    show "\<exists>i. first_cheapest ps i \<and> cheapestProduct s = Some (ps ! i)" if "ps \<noteq> []"
      using that by (rule cheap)
    show "\<exists>i. first_dearest ps i \<and> mostExpensiveProduct s = Some (ps ! i)" if "ps \<noteq> []"
      using that by (rule dear)
  qed
  have ids: "id' (products_init ! 2) = Fin 3 \<and> id' (products_init ! 1) = Fin 2"
    by (simp add: products_init_def)
  from general summary_seed ids show ?thesis by blast
qed

theorem get_summary_spec_witness:
  "reachable (snd (delete_product (str ''2'') products_init))
   \<and> (\<exists>s. get_summary (snd (delete_product (str ''2'') products_init))
           = respond 200 (SummaryBody s)
         \<and> totalProducts s = 3 \<and> totalValue s = Fin 71970
         \<and> averagePrice s = AvgString (Text (str ''23990.00''))
         \<and> cheapestProduct s = Some (products_init ! 2))
   \<and> reachable []
   \<and> (\<exists>s. get_summary [] = respond 200 (SummaryBody s)
         \<and> totalProducts s = 0 \<and> totalValue s = Fin 0
         \<and> averagePrice s = AvgNumber (Fin 0)
         \<and> cheapestProduct s = None \<and> mostExpensiveProduct s = None)"
proof -
  define ps where "ps = snd (delete_product (str ''2'') products_init)"
  have ps: "ps = [products_init ! 0, products_init ! 2, products_init ! 3]"
    by (simp add: ps_def delete_second)
  have reach: "reachable ps"
    unfolding ps_def by (intro reachable.delete reachable.start)
  have len: "length ps = 3" "ps \<noteq> []"
    by (simp_all add: ps)
  have prices: "map price ps = map (\<lambda>k. Fin (of_nat k)) [49990, 5990, 15990]
      \<and> sum_list [49990, 5990, 15990] < (2::nat) ^ 53"
    by (simp add: ps products_init_def)
  from get_summary_spec [OF reach] obtain s where s:
      "get_summary ps = respond 200 (SummaryBody s)"
      "totalProducts s = length ps"
      "\<forall>ks. map price ps = map (\<lambda>k. Fin (of_nat k)) ks \<and> sum_list ks < 2 ^ 53 \<longrightarrow>
            totalValue s = Fin (of_nat (sum_list ks))"
      "ps \<noteq> [] \<longrightarrow>
         (\<forall>q. js_div_count (totalValue s) (length ps) = Fin q \<and> q < 10 ^ 21 \<longrightarrow>
                  0 \<le> q \<and> averagePrice s = AvgString (Text (two_decimals q))
                  \<and> two_decimal_places (two_decimals q))"
      "ps \<noteq> [] \<longrightarrow> (\<exists>i. first_cheapest ps i \<and> cheapestProduct s = Some (ps ! i))"
    by blast
  from s(3) prices have "totalValue s = Fin (of_nat (sum_list [49990, 5990, 15990]))"
    by blast
  then have total: "totalValue s = Fin 71970"
    by simp
  have "js_div_count (totalValue s) (length ps) = Fin 23990 \<and> (23990::rat) < 10 ^ 21"
    by (simp add: total len fround_numeral)
  with s(4) len(2) have avg: "averagePrice s = AvgString (Text (two_decimals 23990))"
    by blast
  from s(5) len(2) obtain i where i: "first_cheapest ps i" "cheapestProduct s = Some (ps ! i)"
    by blast
  have "i = 1"
  proof -
    from i(1) have "i < 3" and le: "\<forall>q\<in>set ps. js_le (price (ps ! i)) (price q)"
      by (simp_all add: first_cheapest_def len)
    then consider "i = 0" | "i = 1" | "i = 2" by linarith
    then show ?thesis
    proof cases
      case 1
      with le show ?thesis
        by (simp add: ps products_init_def js_le_def js_strict_eq_def)
    next
      case 2
      then show ?thesis .
    next
      case 3
      with le show ?thesis
        by (simp add: ps products_init_def js_le_def js_strict_eq_def)
    qed
  qed
  with i(2) have cheap: "cheapestProduct s = Some (products_init ! 2)"
    by (simp add: ps)
  have first: "\<exists>s. get_summary ps = respond 200 (SummaryBody s)
         \<and> totalProducts s = 3 \<and> totalValue s = Fin 71970
         \<and> averagePrice s = AvgString (Text (str ''23990.00''))
         \<and> cheapestProduct s = Some (products_init ! 2)"
    using s(1,2) total len avg cheap by (auto simp: two_decimals_three)
  have second: "\<exists>s. get_summary [] = respond 200 (SummaryBody s)
         \<and> totalProducts s = 0 \<and> totalValue s = Fin 0
         \<and> averagePrice s = AvgNumber (Fin 0)
         \<and> cheapestProduct s = None \<and> mostExpensiveProduct s = None"
    using get_summary_spec [OF reachable_empty] by auto
  from reach first reachable_empty second show ?thesis
    unfolding ps_def by blast
qed

text \<open>
  C3 as stated fails in a state the service can reach: after a create request with the
  price \<open>Infinity\<close> (a string that passes the price test and converts to the number
  infinity) the summary has the total infinity, and \<open>averagePrice\<close> is the string
  \<open>Infinity\<close>, which is not a number written with two decimal places.
\<close>

theorem summary_average_not_two_decimals_counterexample:
  "reachable (snd (post_products env0 (Str (str ''TV'')) (Str (str ''Infinity'')) products_init))
   \<and> get_summary
        (snd (post_products env0 (Str (str ''TV'')) (Str (str ''Infinity'')) products_init))
       = respond 200 (SummaryBody
           \<lparr>totalProducts = 5, totalValue = PosInf,
            averagePrice = AvgString (Text (str ''Infinity'')),
            cheapestProduct = Some (products_init ! 2),
            mostExpensiveProduct =
              Some \<lparr>id' = Fin 1700000000500, name = Str (str ''TV''), price = PosInf\<rparr>\<rparr>)
   \<and> \<not> two_decimal_places (str ''Infinity'')"
proof (intro conjI)
  show "reachable
      (snd (post_products env0 (Str (str ''TV'')) (Str (str ''Infinity'')) products_init))"
    by (intro reachable.post reachable.start)
  let ?ps = "products_init
      @ [\<lparr>id' = Fin 1700000000500, name = Str (str ''TV''), price = PosInf\<rparr>]"
  have len: "length ?ps = 5"
    by (simp add: products_init_def)
  have "get_summary ?ps = respond 200 (SummaryBody
           \<lparr>totalProducts = length ?ps, totalValue = PosInf,
            averagePrice = AvgString (Text (str ''Infinity'')),
            cheapestProduct = Some (products_init ! 2),
            mostExpensiveProduct =
              Some \<lparr>id' = Fin 1700000000500, name = Str (str ''TV''), price = PosInf\<rparr>\<rparr>)"
    by (simp add: get_summary_def products_init_def fround_numeral toFixed_def Let_def
          js_gt_def)
  then show "get_summary
        (snd (post_products env0 (Str (str ''TV'')) (Str (str ''Infinity'')) products_init))
       = respond 200 (SummaryBody
           \<lparr>totalProducts = 5, totalValue = PosInf,
            averagePrice = AvgString (Text (str ''Infinity'')),
            cheapestProduct = Some (products_init ! 2),
            mostExpensiveProduct =
              Some \<lparr>id' = Fin 1700000000500, name = Str (str ''TV''), price = PosInf\<rparr>\<rparr>)"
    unfolding len create_infinite snd_conv .
  show "\<not> two_decimal_places (str ''Infinity'')"
    by (simp add: two_decimal_places_def str_def Let_def)
qed

text \<open>
  C4. The replace handler looks the id up before it looks at the fields. When no
  record of the array has the number that the id parses to, it gives the not-found
  response whatever the name and price are, and the array stays as it was; status 404
  comes in no other case. Status 400 comes exactly when some record has that id and the
  fields fail the test that the create handler applies too; the array then stays as it
  was. When some record has that id and the fields pass, the first record with that id
  gets the new name and the price converted to a number, at its place in the array, and
  the response carries the record so changed.
\<close>

theorem put_product_spec:
  "(findProductById ps ident = None \<longleftrightarrow> \<not> id_present ps ident)
   \<and> (\<not> id_present ps ident \<longrightarrow>
        put_product ident nm pr ps = (respond 404 (ErrorBody NotFound), ps))
   \<and> (status (fst (put_product ident nm pr ps)) = 404 \<longleftrightarrow> \<not> id_present ps ident)
   \<and> (status (fst (put_product ident nm pr ps)) = 400 \<longleftrightarrow>
        id_present ps ident \<and> fields_rejected nm pr)
   \<and> (status (fst (put_product ident nm pr ps)) = 400 \<longrightarrow>
        snd (put_product ident nm pr ps) = ps
        \<and> body (fst (put_product ident nm pr ps))
            \<in> {ErrorBody MissingFields, ErrorBody InvalidPrice})
   \<and> (id_present ps ident \<and> \<not> fields_rejected nm pr \<longrightarrow>
        (\<exists>i<length ps. id' (ps ! i) = parseInt ident
           \<and> (\<forall>j<i. id' (ps ! j) \<noteq> parseInt ident)
           \<and> findProductById ps ident = Some (ps ! i)
           \<and> put_product ident nm pr ps =
               (respond 200 (UpdatedBody ((ps ! i)\<lparr>name := nm, price := ToNumber pr\<rparr>)),
                ps[i := (ps ! i)\<lparr>name := nm, price := ToNumber pr\<rparr>])))"
proof (cases "id_present ps ident")
  case False
  then have "put_product ident nm pr ps = (respond 404 (ErrorBody NotFound), ps)"
    by (rule absent_id_not_found)
  with False show ?thesis
    by (simp add: findProductById_None_iff respond_def)
next
  case True
  from id_present_first [OF True] obtain i where i: "i < length ps"
      "findProductById ps ident = Some (ps ! i)" "id' (ps ! i) = parseInt ident"
      "\<forall>j<i. id' (ps ! j) \<noteq> parseInt ident"
    by blast
  have nn: "parseInt ident \<noteq> NaN"
    using True by (simp add: id_present_def)
  have wb: "write_back ps ident q = ps[i := q]" for q
    using i nn by (intro write_back_update) (auto simp: id_matches_iff)
  show ?thesis
  proof (cases "fields_rejected nm pr")
    case rej: True
    then have "status (fst (put_product ident nm pr ps)) = 400
        \<and> snd (put_product ident nm pr ps) = ps
        \<and> body (fst (put_product ident nm pr ps))
            \<in> {ErrorBody MissingFields, ErrorBody InvalidPrice}"
      using i(2) by (auto simp: put_product_def respond_def fields_rejected_def)
    with True rej show ?thesis
      by (simp add: findProductById_None_iff)
  next
    case ok: False
    then have eq: "put_product ident nm pr ps =
        (respond 200 (UpdatedBody ((ps ! i)\<lparr>name := nm, price := ToNumber pr\<rparr>)),
         ps[i := (ps ! i)\<lparr>name := nm, price := ToNumber pr\<rparr>])"
      using i(2) by (simp add: put_product_def fields_rejected_def wb Let_def)
    have ex: "\<exists>k<length ps. id' (ps ! k) = parseInt ident
           \<and> (\<forall>j<k. id' (ps ! j) \<noteq> parseInt ident)
           \<and> findProductById ps ident = Some (ps ! k)
           \<and> put_product ident nm pr ps =
               (respond 200 (UpdatedBody ((ps ! k)\<lparr>name := nm, price := ToNumber pr\<rparr>)),
                ps[k := (ps ! k)\<lparr>name := nm, price := ToNumber pr\<rparr>])"
      using i eq by blast
    have st: "status (fst (put_product ident nm pr ps)) = 200"
      unfolding eq by (simp add: respond_def)
    from True ok ex st show ?thesis
      by (simp add: findProductById_None_iff)
  qed
qed

theorem put_product_spec_witness:
  "\<not> id_present products_init (str ''99'')
   \<and> put_product (str ''99'') (Str (str ''TV'')) (Num (Fin 5)) products_init
     = (respond 404 (ErrorBody NotFound), products_init)
   \<and> put_product (str ''99'') Undefined (Num (Fin (- 1))) products_init
     = (respond 404 (ErrorBody NotFound), products_init)
   \<and> id_present products_init (str ''1'')
   \<and> status (fst (put_product (str ''1'') (Str []) (Num (Fin 5)) products_init)) = 400
   \<and> snd (put_product (str ''1'') (Str []) (Num (Fin 5)) products_init) = products_init
   \<and> put_product (str ''1'') (Str (str ''TV'')) (Num (Fin 5)) products_init
     = (respond 200 (UpdatedBody \<lparr>id' = Fin 1, name = Str (str ''TV''), price = Fin 5\<rparr>),
        products_init[0 := \<lparr>id' = Fin 1, name = Str (str ''TV''), price = Fin 5\<rparr>])"
proof -
  note absent = absent_99
  note present = present_1
  have bad: "fields_rejected (Str []) (Num (Fin 5))"
    by (simp add: fields_rejected_def)
  have good: "\<not> fields_rejected (Str (str ''TV'')) (Num (Fin 5))"
    by (simp add: fields_rejected_def isNaN_def str_def)
  have a: "put_product (str ''99'') (Str (str ''TV'')) (Num (Fin 5)) products_init
     = (respond 404 (ErrorBody NotFound), products_init)"
    using put_product_spec [of products_init "str ''99''" "Str (str ''TV'')" "Num (Fin 5)"]
      absent by blast
  have a': "put_product (str ''99'') Undefined (Num (Fin (- 1))) products_init
     = (respond 404 (ErrorBody NotFound), products_init)"
    using put_product_spec [of products_init "str ''99''" Undefined "Num (Fin (- 1))"]
      absent by blast
  have b: "status (fst (put_product (str ''1'') (Str []) (Num (Fin 5)) products_init)) = 400
      \<and> snd (put_product (str ''1'') (Str []) (Num (Fin 5)) products_init) = products_init"
    using put_product_spec [of products_init "str ''1''" "Str []" "Num (Fin 5)"] present bad
    by simp
  obtain i where i: "i < length products_init"
      "id' (products_init ! i) = parseInt (str ''1'')"
      "put_product (str ''1'') (Str (str ''TV'')) (Num (Fin 5)) products_init =
         (respond 200 (UpdatedBody ((products_init ! i)
             \<lparr>name := Str (str ''TV''), price := ToNumber (Num (Fin 5))\<rparr>)),
          products_init[i := (products_init ! i)
             \<lparr>name := Str (str ''TV''), price := ToNumber (Num (Fin 5))\<rparr>])"
    using put_product_spec [of products_init "str ''1''" "Str (str ''TV'')" "Num (Fin 5)"]
      present good by blast
  have "i = 0"
    using i(1,2) by (auto simp: parseInt_1 products_init_def nth_Cons' split: if_splits)
  then have c: "put_product (str ''1'') (Str (str ''TV'')) (Num (Fin 5)) products_init
     = (respond 200 (UpdatedBody \<lparr>id' = Fin 1, name = Str (str ''TV''), price = Fin 5\<rparr>),
        products_init[0 := \<lparr>id' = Fin 1, name = Str (str ''TV''), price = Fin 5\<rparr>])"
    using i(3) by (simp add: products_init_def)
  from absent present a a' b c show ?thesis by simp
qed

text \<open>
  C5. For an id that matches a record, the patch handler writes to the first matching
  record only, and keeps its id. The record's name becomes the name of the body whenever
  the body has one, be it the empty string (which the create and the replace handler
  reject); without one the name stays. The price becomes the price of the body,
  converted to a number, when the body has one that is numeric and at least 0, and stays
  otherwise. So a body with a valid price and no name changes the price and nothing
  else.
\<close>

theorem patch_product_spec:
  assumes "findProductById ps ident = Some p"
  shows "\<exists>i<length ps. ps ! i = p \<and> (\<forall>j<i. \<not> id_matches ident (ps ! j))
     \<and> length (snd (patch_product ident nm pr ps)) = length ps
     \<and> (\<forall>j<length ps. j \<noteq> i \<longrightarrow> snd (patch_product ident nm pr ps) ! j = ps ! j)
     \<and> id' (snd (patch_product ident nm pr ps) ! i) = id' p
     \<and> name (snd (patch_product ident nm pr ps) ! i)
         = (if nm \<noteq> Undefined then nm else name p)
     \<and> price (snd (patch_product ident nm pr ps) ! i)
         = (if pr \<noteq> Undefined \<and> \<not> isNaN pr \<and> js_ge (ToNumber pr) (Fin 0)
            then ToNumber pr else price p)
     \<and> name (snd (patch_product ident (Str []) pr ps) ! i) = Str []
     \<and> status (fst (put_product ident (Str []) pr ps)) = 400
     \<and> status (fst (post_products e (Str []) pr ps)) = 400
     \<and> (pr \<noteq> Undefined \<and> \<not> isNaN pr \<and> js_ge (ToNumber pr) (Fin 0) \<longrightarrow>
          patch_product ident Undefined pr ps
            = (respond 200 (PatchedBody (p\<lparr>price := ToNumber pr\<rparr>)),
               ps[i := p\<lparr>price := ToNumber pr\<rparr>]))"
proof -
  from assms obtain i where i: "i < length ps" "ps ! i = p" "id_matches ident p"
      "\<forall>j<i. \<not> id_matches ident (ps ! j)"
    unfolding findProductById_Some by blast
  have wb: "write_back ps ident q = ps[i := q]" for q
    using i by (intro write_back_update) auto
  have valid: "(pr \<noteq> Undefined \<and> \<not> isNaN pr \<and> js_ge (ToNumber pr) (Fin 0))
      = (pr \<noteq> Undefined \<and> \<not> (isNaN pr \<or> js_lt (ToNumber pr) (Fin 0)))"
    by (auto simp: js_ge_zero_iff isNaN_def)
  have snd_eq: "snd (patch_product ident n' pr ps) =
         ps[i := p\<lparr>name := (if n' \<noteq> Undefined then n' else name p),
                    price := (if pr \<noteq> Undefined \<and> \<not> isNaN pr \<and> js_ge (ToNumber pr) (Fin 0)
                              then ToNumber pr else price p)\<rparr>]" for n'
    unfolding valid using assms by (simp add: patch_product_def wb Let_def)
  have only_price: "patch_product ident Undefined pr ps
            = (respond 200 (PatchedBody (p\<lparr>price := ToNumber pr\<rparr>)),
               ps[i := p\<lparr>price := ToNumber pr\<rparr>])"
    if "pr \<noteq> Undefined \<and> \<not> isNaN pr \<and> js_ge (ToNumber pr) (Fin 0)"
    using that assms unfolding valid by (simp add: patch_product_def wb Let_def)
  have put400: "status (fst (put_product ident (Str []) pr ps)) = 400"
    using assms by (simp add: put_product_def respond_def)
  have post400: "status (fst (post_products e (Str []) pr ps)) = 400"
    by (simp add: post_products_def respond_def)
  have "length (snd (patch_product ident nm pr ps)) = length ps
     \<and> (\<forall>j<length ps. j \<noteq> i \<longrightarrow> snd (patch_product ident nm pr ps) ! j = ps ! j)
     \<and> id' (snd (patch_product ident nm pr ps) ! i) = id' p
     \<and> name (snd (patch_product ident nm pr ps) ! i)
         = (if nm \<noteq> Undefined then nm else name p)
     \<and> price (snd (patch_product ident nm pr ps) ! i)
         = (if pr \<noteq> Undefined \<and> \<not> isNaN pr \<and> js_ge (ToNumber pr) (Fin 0)
            then ToNumber pr else price p)
     \<and> name (snd (patch_product ident (Str []) pr ps) ! i) = Str []"
    unfolding snd_eq using i(1) by simp
  with i only_price put400 post400 show ?thesis by blast
qed

theorem patch_product_spec_witness:
  "findProductById products_init (str ''3'') = Some (products_init ! 2)
   \<and> patch_product (str ''3'') Undefined (Str (str ''100'')) products_init
       = (respond 200 (PatchedBody ((products_init ! 2)\<lparr>price := Fin 100\<rparr>)),
          products_init[2 := (products_init ! 2)\<lparr>price := Fin 100\<rparr>])"
proof -
  have some: "findProductById products_init (str ''3'') = Some (products_init ! 2)"
    by (simp add: lookup_simps parseInt_3)
  have third: "id_matches (str ''3'') (products_init ! 2)"
    by (simp add: lookup_simps parseInt_3)
  have num: "StringToNumber (str ''100'') = Fin 100"
    by (simp add: number_simps)
  have ok: "Str (str ''100'') \<noteq> Undefined \<and> \<not> isNaN (Str (str ''100''))
      \<and> js_ge (ToNumber (Str (str ''100''))) (Fin 0)"
    by (simp add: num isNaN_def js_ge_def js_le_def)
  obtain i where i: "i < length products_init" "products_init ! i = products_init ! 2"
      "patch_product (str ''3'') Undefined (Str (str ''100'')) products_init
            = (respond 200 (PatchedBody ((products_init ! 2)
                  \<lparr>price := ToNumber (Str (str ''100''))\<rparr>)),
               products_init[i := (products_init ! 2)
                  \<lparr>price := ToNumber (Str (str ''100''))\<rparr>])"
    using patch_product_spec [OF some, of Undefined "Str (str ''100'')"] ok by blast
  have "i = 2"
    using i(1,2) by (auto simp: products_init_def nth_Cons' split: if_splits)
  with i(3) some show ?thesis by (simp add: num)
qed

text \<open>
  C6, evaluated on the start-up array: a patch of record 1 with the name \<open>X\<close> and the
  price \<open>-1\<close> is answered with status 400 and the invalid-price message, and the array
  afterwards holds record 1 with the name \<open>X\<close>.
\<close>

theorem patch_product_invalid_price_after_name:
  "patch_product (str ''1'') (Str (str ''X'')) (Num (Fin (- 1))) products_init
     = (respond 400 (ErrorBody InvalidPrice),
        products_init[0 := \<lparr>id' = Fin 1, name = Str (str ''X''), price = Fin 49990\<rparr>])
   \<and> snd (patch_product (str ''1'') (Str (str ''X'')) (Num (Fin (- 1))) products_init)
       \<noteq> products_init"
  by (simp add: patch_product_def lookup_simps parse_simps isNaN_def)

theorem patch_product_invalid_price_after_name_witness:
  "fst (patch_product (str ''1'') (Str (str ''X'')) (Num (Fin (- 1))) products_init)
     = respond 400 (ErrorBody InvalidPrice)
   \<and> snd (patch_product (str ''1'') (Str (str ''X'')) (Num (Fin (- 1))) products_init)
       = products_init[0 := \<lparr>id' = Fin 1, name = Str (str ''X''), price = Fin 49990\<rparr>]"
  using patch_product_invalid_price_after_name by simp

text \<open>
  C7, evaluated on the array with two records of one id: the delete request for that
  id removes the first of them and is answered with status 200, and the get request for
  the same id that follows is answered with status 200 and the second record.
\<close>

theorem delete_product_then_get_found:
  "reachable collided
   \<and> delete_product (str ''1700000000500'') collided
      = (respond 200 (DeletedBody \<lparr>id' = Fin 1700000000500, name = Str (str ''A''), price = Fin 1\<rparr>),
         products_init @ [\<lparr>id' = Fin 1700000000500, name = Str (str ''B''), price = Fin 2\<rparr>])
   \<and> get_product (str ''1700000000500'')
        (snd (delete_product (str ''1700000000500'') collided))
      = respond 200 (ProductBody \<lparr>id' = Fin 1700000000500, name = Str (str ''B''), price = Fin 2\<rparr>)"
proof (intro conjI)
  show "reachable collided"
    by (rule reachable_collided)
qed (simp_all add: collided_eq delete_product_def get_product_def splice1_def
        lookup_simps parseInt_collided Let_def)

theorem delete_product_then_get_found_witness:
  "status (get_product (str ''1700000000500'')
      (snd (delete_product (str ''1700000000500'') collided))) = 200"
proof -
  have "get_product (str ''1700000000500'')
        (snd (delete_product (str ''1700000000500'') collided))
      = respond 200 (ProductBody \<lparr>id' = Fin 1700000000500, name = Str (str ''B''), price = Fin 2\<rparr>)"
    using delete_product_then_get_found by blast
  then show ?thesis
    by (simp add: respond_def)
qed

text \<open>
  C8. The list handler answers 200 with the records that are within the given bounds,
  in the order of the array; a bound is given when its parameter is there with a
  non-empty value, and a parameter with an empty value bounds nothing. So the list is a subsequence of the array, it is the whole array
  when no bound is given, and it is the empty list, still with status 200, when no
  record is within the bounds. On the start-up array the lower bound \<open>10000\<close> leaves the
  records with the ids 1, 2 and 4.
\<close>

theorem get_products_spec:
  "get_products (query_value lo) (query_value hi) ps
     = respond 200 (ListBody (filter (price_in_range lo hi) ps))
   \<and> subseq (filter (price_in_range lo hi) ps) ps
   \<and> get_products (query_value None) (query_value None) ps = respond 200 (ListBody ps)
   \<and> get_products (query_value (Some [])) (query_value (Some [])) ps = respond 200 (ListBody ps)
   \<and> ((\<forall>p\<in>set ps. \<not> price_in_range lo hi p) \<longrightarrow>
        get_products (query_value lo) (query_value hi) ps = respond 200 (ListBody []))
   \<and> get_products (query_value (Some (str ''10000''))) (query_value None) products_init
       = respond 200 (ListBody [products_init ! 0, products_init ! 1, products_init ! 3])
   \<and> map id' [products_init ! 0, products_init ! 1, products_init ! 3] = [Fin 1, Fin 2, Fin 4]"
proof (intro conjI)
  show "get_products (query_value lo) (query_value hi) ps
     = respond 200 (ListBody (filter (price_in_range lo hi) ps))"
    by (rule get_products_filter)
  show "subseq (filter (price_in_range lo hi) ps) ps"
    by (rule subseq_filter_left)
  show "get_products (query_value None) (query_value None) ps = respond 200 (ListBody ps)"
    by (simp add: get_products_def query_value_def)
  show "get_products (query_value (Some [])) (query_value (Some [])) ps
      = respond 200 (ListBody ps)"
    by (simp add: get_products_def query_value_def)
  show "(\<forall>p\<in>set ps. \<not> price_in_range lo hi p) \<longrightarrow>
        get_products (query_value lo) (query_value hi) ps = respond 200 (ListBody [])"
    by (simp add: get_products_filter)
  show "get_products (query_value (Some (str ''10000''))) (query_value None) products_init
       = respond 200 (ListBody [products_init ! 0, products_init ! 1, products_init ! 3])"
    by (simp add: get_products_def query_value_def StringToNumber_10000 products_init_def
          js_ge_def js_le_def js_strict_eq_def str_eq_Nil)
  show "map id' [products_init ! 0, products_init ! 1, products_init ! 3] = [Fin 1, Fin 2, Fin 4]"
    by (simp add: products_init_def)
qed

theorem get_products_spec_witness:
  "filter (price_in_range (Some (str ''100000'')) None) products_init = []
   \<and> get_products (query_value (Some (str ''100000''))) (query_value None) products_init
       = respond 200 (ListBody [])"
proof -
  have none: "\<forall>p\<in>set products_init. \<not> price_in_range (Some (str ''100000'')) None p"
    by (simp add: price_in_range_def given_def query_value_def number_simps products_init_def
          js_ge_def js_le_def js_strict_eq_def)
  then have "filter (price_in_range (Some (str ''100000'')) None) products_init = []"
    by (simp add: filter_empty_conv)
  with none get_products_spec [of "Some (str ''100000'')" None products_init]
  show ?thesis by blast
qed

text \<open>
  C9, as the code has it. The path parameter goes through \<open>parseInt\<close>, which gives
  \<open>NaN\<close> exactly when no digit follows the leading white space, the optional sign and
  the optional \<open>0x\<close> (digits of radix 16 after \<open>0x\<close>, of radix 10 otherwise). Such an
  id names no record. Whenever the id names no record, the get, replace, patch and
  delete handlers all answer 404 with the not-found message, whatever the body is, and
  the array stays as it was. Whenever it names one, none of them answers 404: the get
  handler answers with the first record whose id is the parsed number and the delete
  handler removes that record. Two id strings that parse to the same number get the
  same answers. So \<open>1abc\<close> and \<open>0x2z\<close>, neither of which converts to a number, are
  looked up as 1 and 2, while \<open>0x\<close> names nothing.
\<close>

theorem id_lookup_spec:
  "(parseInt ident = NaN \<longleftrightarrow>
      (let S = dropWhile is_ws ident;
           S1 = (if S \<noteq> [] \<and> (hd S = 43 \<or> hd S = 45) then tl S else S);
           hex = (case S1 of a # b # _ \<Rightarrow> a = 48 \<and> (b = 120 \<or> b = 88) | _ \<Rightarrow> False)
       in takeWhile (is_radix_digit (if hex then 16 else 10))
            (if hex then drop 2 S1 else S1) = []))
   \<and> (parseInt ident = NaN \<longrightarrow> \<not> id_present ps ident)
   \<and> (\<not> id_present ps ident \<longrightarrow>
        findProductById ps ident = None
        \<and> get_product ident ps = respond 404 (ErrorBody NotFound)
        \<and> put_product ident nm pr ps = (respond 404 (ErrorBody NotFound), ps)
        \<and> patch_product ident nm pr ps = (respond 404 (ErrorBody NotFound), ps)
        \<and> delete_product ident ps = (respond 404 (ErrorBody NotFound), ps))
   \<and> (id_present ps ident \<longrightarrow>
        (\<exists>i<length ps. id' (ps ! i) = parseInt ident
           \<and> (\<forall>j<i. id' (ps ! j) \<noteq> parseInt ident)
           \<and> findProductById ps ident = Some (ps ! i)
           \<and> get_product ident ps = respond 200 (ProductBody (ps ! i))
           \<and> delete_product ident ps
               = (respond 200 (DeletedBody (ps ! i)), take i ps @ drop (Suc i) ps)
           \<and> status (fst (put_product ident nm pr ps)) \<noteq> 404
           \<and> status (fst (patch_product ident nm pr ps)) \<noteq> 404))
   \<and> (parseInt ident = parseInt other \<longrightarrow>
        get_product ident ps = get_product other ps
        \<and> put_product ident nm pr ps = put_product other nm pr ps
        \<and> patch_product ident nm pr ps = patch_product other nm pr ps
        \<and> delete_product ident ps = delete_product other ps)
   \<and> StringToNumber (str ''1abc'') = NaN \<and> parseInt (str ''1abc'') = Fin 1
   \<and> StringToNumber (str ''0x2z'') = NaN \<and> parseInt (str ''0x2z'') = Fin 2
   \<and> parseInt (str ''0x'') = NaN"
proof (intro conjI impI)
  show "parseInt ident = NaN \<longleftrightarrow>
      (let S = dropWhile is_ws ident;
           S1 = (if S \<noteq> [] \<and> (hd S = 43 \<or> hd S = 45) then tl S else S);
           hex = (case S1 of a # b # _ \<Rightarrow> a = 48 \<and> (b = 120 \<or> b = 88) | _ \<Rightarrow> False)
       in takeWhile (is_radix_digit (if hex then 16 else 10))
            (if hex then drop 2 S1 else S1) = [])"
    by (rule parseInt_NaN_iff)
  show "\<not> id_present ps ident" if "parseInt ident = NaN"
    using that by (simp add: id_present_def)
  show "findProductById ps ident = None" if "\<not> id_present ps ident"
    using that by (rule absent_id_not_found)
  show "get_product ident ps = respond 404 (ErrorBody NotFound)" if "\<not> id_present ps ident"
    using that by (rule absent_id_not_found)
  show "put_product ident nm pr ps = (respond 404 (ErrorBody NotFound), ps)"
    if "\<not> id_present ps ident"
    using that by (rule absent_id_not_found)
  show "patch_product ident nm pr ps = (respond 404 (ErrorBody NotFound), ps)"
    if "\<not> id_present ps ident"
    using that by (rule absent_id_not_found)
  show "delete_product ident ps = (respond 404 (ErrorBody NotFound), ps)"
    if "\<not> id_present ps ident"
    using that by (rule absent_id_not_found)
  show "\<exists>i<length ps. id' (ps ! i) = parseInt ident
           \<and> (\<forall>j<i. id' (ps ! j) \<noteq> parseInt ident)
           \<and> findProductById ps ident = Some (ps ! i)
           \<and> get_product ident ps = respond 200 (ProductBody (ps ! i))
           \<and> delete_product ident ps
               = (respond 200 (DeletedBody (ps ! i)), take i ps @ drop (Suc i) ps)
           \<and> status (fst (put_product ident nm pr ps)) \<noteq> 404
           \<and> status (fst (patch_product ident nm pr ps)) \<noteq> 404"
    if "id_present ps ident"
    using that by (rule present_id_found)
  show "get_product ident ps = get_product other ps" if "parseInt ident = parseInt other"
    using that by (rule handlers_same_parse)
  show "put_product ident nm pr ps = put_product other nm pr ps"
    if "parseInt ident = parseInt other"
    using that by (rule handlers_same_parse)
  show "patch_product ident nm pr ps = patch_product other nm pr ps"
    if "parseInt ident = parseInt other"
    using that by (rule handlers_same_parse)
  show "delete_product ident ps = delete_product other ps" if "parseInt ident = parseInt other"
    using that by (rule handlers_same_parse)
  show "StringToNumber (str ''1abc'') = NaN" by (rule StringToNumber_1abc)
  show "parseInt (str ''1abc'') = Fin 1" by (rule parseInt_1abc)
  show "StringToNumber (str ''0x2z'') = NaN" by (rule StringToNumber_0x2z)
  show "parseInt (str ''0x2z'') = Fin 2" by (rule parseInt_0x2z)
  show "parseInt (str ''0x'') = NaN" by (rule parseInt_0x)
qed

theorem id_lookup_spec_witness:
  "parseInt (str ''abc'') = NaN
   \<and> get_product (str ''abc'') products_init = respond 404 (ErrorBody NotFound)
   \<and> delete_product (str ''abc'') products_init
       = (respond 404 (ErrorBody NotFound), products_init)
   \<and> get_product (str ''0x'') products_init = respond 404 (ErrorBody NotFound)
   \<and> \<not> id_present products_init (str ''99'')
   \<and> patch_product (str ''99'') (Str (str ''TV'')) (Num (Fin 5)) products_init
       = (respond 404 (ErrorBody NotFound), products_init)
   \<and> id_present products_init (str ''0x2z'')
   \<and> get_product (str ''0x2z'') products_init = respond 200 (ProductBody (products_init ! 1))
   \<and> delete_product (str ''0x2z'') products_init = delete_product (str ''2'') products_init
   \<and> delete_product (str ''0x2z'') products_init
       = (respond 200 (DeletedBody (products_init ! 1)),
          [products_init ! 0, products_init ! 2, products_init ! 3])"
proof -
  have abc: "\<not> id_present products_init (str ''abc'')"
    using id_lookup_spec [of "str ''abc''" products_init] parseInt_abc by blast
  have a: "get_product (str ''abc'') products_init = respond 404 (ErrorBody NotFound)
      \<and> delete_product (str ''abc'') products_init
          = (respond 404 (ErrorBody NotFound), products_init)"
    using id_lookup_spec [of "str ''abc''" products_init] abc by blast
  have hex0: "\<not> id_present products_init (str ''0x'')"
    using id_lookup_spec [of "str ''0x''" products_init] by blast
  have b: "get_product (str ''0x'') products_init = respond 404 (ErrorBody NotFound)"
    using id_lookup_spec [of "str ''0x''" products_init] hex0 by blast
  have c: "patch_product (str ''99'') (Str (str ''TV'')) (Num (Fin 5)) products_init
       = (respond 404 (ErrorBody NotFound), products_init)"
    using id_lookup_spec [where ident = "str ''99''" and ps = products_init
        and nm = "Str (str ''TV'')" and pr = "Num (Fin 5)"]
      absent_99 by blast
  have present: "id_present products_init (str ''0x2z'')"
    by (simp add: id_present_def parseInt_0x2z products_init_def)
  obtain i where i: "i < length products_init"
      "id' (products_init ! i) = parseInt (str ''0x2z'')"
      "get_product (str ''0x2z'') products_init = respond 200 (ProductBody (products_init ! i))"
    using id_lookup_spec [of "str ''0x2z''" products_init] present by blast
  have "i = 1"
    using i(1,2) by (auto simp: parseInt_0x2z products_init_def nth_Cons' split: if_splits)
  with i(3) have d: "get_product (str ''0x2z'') products_init
      = respond 200 (ProductBody (products_init ! 1))"
    by simp
  have same: "parseInt (str ''0x2z'') = parseInt (str ''2'')"
    by (simp add: parseInt_0x2z parseInt_2)
  have e: "delete_product (str ''0x2z'') products_init = delete_product (str ''2'') products_init"
    using id_lookup_spec [where ident = "str ''0x2z''" and ps = products_init
        and other = "str ''2''"] same by blast
  from parseInt_abc a b absent_99 c present d e show ?thesis
    by (simp add: delete_second)
qed

text \<open>
  C9 as stated fails on the start-up array: the id string \<open>1abc\<close> is not numeric (its
  conversion to a number is \<open>NaN\<close>), yet \<open>parseInt\<close> reads the leading \<open>1\<close>, so the get
  and the delete handler find record 1 and answer 200.
\<close>

theorem non_numeric_id_matches_counterexample:
  "StringToNumber (str ''1abc'') = NaN
   \<and> get_product (str ''1abc'') products_init
       = respond 200 (ProductBody
           \<lparr>id' = Fin 1,
            name = Str [1057, 1084, 1072, 1088, 1090, 1092, 1086, 1085, 32, 88, 32, 80, 114, 111],
            price = Fin 49990\<rparr>)
   \<and> status (fst (delete_product (str ''1abc'') products_init)) = 200"
proof (intro conjI)
  show "StringToNumber (str ''1abc'') = NaN"
    by (rule StringToNumber_1abc)
qed (simp_all add: get_product_def delete_product_def lookup_simps parseInt_1abc respond_def
       Let_def)

text \<open>
  C10. A query parameter whose conversion to a number is \<open>NaN\<close> empties the list: with
  such a \<open>minPrice\<close>, or such a \<open>maxPrice\<close>, the list handler answers 200 with the empty
  list, whatever the array and the other parameter are.
\<close>

theorem get_products_NaN_bound:
  assumes "ToNumber (query_value (Some s)) = NaN"
  shows "get_products (query_value (Some s)) other ps = respond 200 (ListBody [])
    \<and> get_products other (query_value (Some s)) ps = respond 200 (ListBody [])"
proof -
  have nan: "StringToNumber s = NaN"
    using assms by (simp add: query_value_def)
  then have "s \<noteq> []"
    using StringToNumber_empty by auto
  then show ?thesis
    by (simp add: get_products_def query_value_def nan js_ge_NaN js_le_NaN)
qed

theorem get_products_NaN_bound_witness:
  "ToNumber (query_value (Some (str ''abc''))) = NaN
   \<and> get_products (query_value (Some (str ''abc''))) (query_value None) products_init
       = respond 200 (ListBody [])
   \<and> get_products (query_value (Some (str ''1''))) (query_value (Some (str ''abc''))) products_init
       = respond 200 (ListBody [])"
proof -
  have nan: "ToNumber (query_value (Some (str ''abc''))) = NaN"
    by (simp add: query_value_def StringToNumber_abc)
  from get_products_NaN_bound [OF nan, of "query_value None" products_init]
    get_products_NaN_bound [OF nan, of "query_value (Some (str ''1''))" products_init] nan
  show ?thesis by blast
qed

end
